theory Spec2Isabelle
  imports Main
begin

section \<open>The job queue port\<close>

text \<open>
  The port (\<^verbatim>\<open>ports.ts\<close>) fixes the job entity and the enqueue options. Dates are
  milliseconds since the epoch (\<open>int\<close>), \<^verbatim>\<open>attempts\<close> is a counter that starts at 0
  and is only ever incremented (\<open>nat\<close>), the other numbers are integers. Optional
  fields are \<open>option\<close>s. The payload type \<^verbatim>\<open>T\<close> is the type variable \<open>'d\<close>. A field
  whose name occurs in two records, or is a constant of HOL, carries a prefix
  (\<open>job_id\<close> for \<^verbatim>\<open>id\<close>, \<open>opt_location\<close> for the \<^verbatim>\<open>location\<close> of the options).
\<close>

datatype JobStatus = PENDING | RUNNING | COMPLETED | FAILED | RETRYING

record EnqueueOptions =
  opt_location :: string
  opt_runAt :: "int option"
  opt_priority :: "int option"
  opt_maxAttempts :: "int option"

record 'd Job =
  job_id :: string
  data :: 'd
  location :: string
  status :: JobStatus
  attempts :: nat
  maxAttempts :: int
  priority :: int
  scheduledFor :: int
  createdAt :: int
  startedAt :: "int option"
  completedAt :: "int option"
  error :: "string option"

text \<open>A thrown exception, with its message.\<close>

datatype thrown = Error string | TypeError string

text \<open>
  Both adapters test the optional location argument with JavaScript truthiness
  (\<^verbatim>\<open>location ? ... : ...\<close>, \<^verbatim>\<open>location && ...\<close>): \<^verbatim>\<open>undefined\<close> and the empty string
  both count as "no filter".
\<close>

fun location_given :: "string option \<Rightarrow> bool" where
  "location_given None = False"
| "location_given (Some l) = (l \<noteq> [])"

section \<open>The relational backend: \<^verbatim>\<open>PostgresJobQueue\<close>\<close>

text \<open>
  The \<^verbatim>\<open>jobs\<close> table is a list of rows; a row has the columns of the job entity plus
  \<^verbatim>\<open>queue_name\<close> and \<^verbatim>\<open>updated_at\<close>. Each method issues its SQL statements one after
  the other against the table; \<^verbatim>\<open>NOW()\<close> and \<^verbatim>\<open>Date.now()\<close> are the parameter \<open>now\<close>.
  Transport errors of the connection pool are not modelled.
\<close>

record 'd jobs_row = "'d Job" +
  queue_name :: string
  updated_at :: int

type_synonym 'd jobs_table = "'d jobs_row list"

text \<open>\<^verbatim>\<open>UPDATE jobs SET ... WHERE id = $n\<close>.\<close>

definition update_where_id ::
  "string \<Rightarrow> ('d jobs_row \<Rightarrow> 'd jobs_row) \<Rightarrow> 'd jobs_table \<Rightarrow> 'd jobs_table" where
  "update_where_id jid f tbl = map (\<lambda>r. if job_id r = jid then f r else r) tbl"

text \<open>The rows a statement returns, read as jobs the way the adapter copies the columns.\<close>

definition row_to_job :: "'d jobs_row \<Rightarrow> 'd Job" where
  "row_to_job row = Job.truncate row"

definition pg_enqueue ::
  "string \<Rightarrow> string \<Rightarrow> 'd \<Rightarrow> EnqueueOptions \<Rightarrow> int \<Rightarrow> 'd jobs_table \<Rightarrow> string \<times> 'd jobs_table" where
  "pg_enqueue queueName new_id d options now tbl =
     (let scheduledFor' = (case opt_runAt options of None \<Rightarrow> now | Some t \<Rightarrow> t);
          priority' = (case opt_priority options of None \<Rightarrow> 0 | Some p \<Rightarrow> p);
          maxAttempts' = (case opt_maxAttempts options of None \<Rightarrow> 3 | Some m \<Rightarrow> m);
          row = \<lparr> job_id = new_id, data = d, location = opt_location options,
                  status = PENDING, attempts = 0, maxAttempts = maxAttempts',
                  priority = priority', scheduledFor = scheduledFor', createdAt = now,
                  startedAt = None, completedAt = None, error = None,
                  queue_name = queueName, updated_at = now \<rparr>
      in (new_id, tbl @ [row]))"

text \<open>The \<^verbatim>\<open>WHERE\<close> clause of the inner \<^verbatim>\<open>SELECT\<close> of \<^verbatim>\<open>dequeue\<close>.\<close>

definition eligible :: "string \<Rightarrow> string option \<Rightarrow> int \<Rightarrow> 'd jobs_row \<Rightarrow> bool" where
  "eligible queueName loc now r \<longleftrightarrow>
     queue_name r = queueName \<and> status r = PENDING \<and> scheduledFor r \<le> now \<and>
     (if location_given loc then Some (location r) = loc else True)"

text \<open>
  \<^verbatim>\<open>ORDER BY priority DESC, scheduled_for ASC LIMIT 1\<close>: \<open>comes_before a b\<close> when \<open>a\<close> sorts
  strictly before \<open>b\<close>. SQL leaves the order of ties open; the model keeps the row that
  comes first in the table.
\<close>

definition comes_before :: "'d jobs_row \<Rightarrow> 'd jobs_row \<Rightarrow> bool" where
  "comes_before a b \<longleftrightarrow>
     priority a > priority b \<or> (priority a = priority b \<and> scheduledFor a < scheduledFor b)"

fun order_by_limit_1 :: "'d jobs_table \<Rightarrow> 'd jobs_row option" where
  "order_by_limit_1 [] = None"
| "order_by_limit_1 (r # rs) =
     (case order_by_limit_1 rs of
        None \<Rightarrow> Some r
      | Some b \<Rightarrow> if comes_before b r then Some b else Some r)"

text \<open>The \<^verbatim>\<open>SET\<close> clause of \<^verbatim>\<open>dequeue\<close>.\<close>

definition claim_row :: "int \<Rightarrow> 'd jobs_row \<Rightarrow> 'd jobs_row" where
  "claim_row now r =
     r\<lparr> status := RUNNING, startedAt := Some now, attempts := attempts r + 1,
        updated_at := now \<rparr>"

definition pg_dequeue ::
  "string \<Rightarrow> string option \<Rightarrow> int \<Rightarrow> 'd jobs_table \<Rightarrow> 'd Job option \<times> 'd jobs_table" where
  "pg_dequeue queueName loc now tbl =
     (case order_by_limit_1 (filter (eligible queueName loc now) tbl) of
        None \<Rightarrow> (None, tbl)
      | Some sel \<Rightarrow>
          (let returning = map (claim_row now) (filter (\<lambda>r. job_id r = job_id sel) tbl);
               tbl' = update_where_id (job_id sel) (claim_row now) tbl
           in case returning of
                [] \<Rightarrow> (None, tbl')
              | row # _ \<Rightarrow> (Some (row_to_job row), tbl')))"

definition pg_acknowledge :: "string \<Rightarrow> int \<Rightarrow> 'd jobs_table \<Rightarrow> 'd jobs_table" where
  "pg_acknowledge jobId now tbl =
     update_where_id jobId
       (\<lambda>r. r\<lparr> status := COMPLETED, completedAt := Some now, updated_at := now \<rparr>) tbl"

definition pg_getStatus :: "string \<Rightarrow> 'd jobs_table \<Rightarrow> JobStatus option" where
  "pg_getStatus jobId tbl =
     (case filter (\<lambda>r. job_id r = jobId) tbl of [] \<Rightarrow> None | row # _ \<Rightarrow> Some (status row))"

definition pg_getJob :: "string \<Rightarrow> 'd jobs_table \<Rightarrow> 'd Job option" where
  "pg_getJob jobId tbl =
     (case filter (\<lambda>r. job_id r = jobId) tbl of [] \<Rightarrow> None | row # _ \<Rightarrow> Some (row_to_job row))"

definition pg_fail ::
  "string \<Rightarrow> string \<Rightarrow> bool \<Rightarrow> int \<Rightarrow> 'd jobs_table \<Rightarrow> thrown + 'd jobs_table" where
  "pg_fail jobId message retry now tbl =
     (case pg_getJob jobId tbl of
        None \<Rightarrow> Inl (Error (''Job '' @ jobId @ '' not found''))
      | Some job \<Rightarrow>
          (let shouldRetry = (retry \<and> int (attempts job) < maxAttempts job) in
           if shouldRetry then
             (let backoffSeconds = 2 ^ attempts job;
                  nextRunAt = now + backoffSeconds * 1000;
                  tbl1 = update_where_id jobId
                           (\<lambda>r. r\<lparr> status := RETRYING, error := Some message,
                                   scheduledFor := nextRunAt, updated_at := now \<rparr>) tbl
              in Inr (update_where_id jobId (\<lambda>r. r\<lparr> status := PENDING \<rparr>) tbl1))
           else
             Inr (update_where_id jobId
                    (\<lambda>r. r\<lparr> status := FAILED, error := Some message,
                            completedAt := Some now, updated_at := now \<rparr>) tbl)))"

section \<open>The managed backend: \<^verbatim>\<open>SqsJobQueue\<close>\<close>

text \<open>
  The adapter keeps one piece of state, the map \<^verbatim>\<open>inFlightJobs\<close>, and talks to the
  hosted queue through \<^verbatim>\<open>client.send\<close>. Each method returns what it returns or throws,
  the commands it sent in order, and the new map. The reply to the receive command is
  an argument of \<open>sqs_dequeue\<close>. ISO 8601 strings are the timestamps they render, and
  \<^verbatim>\<open>String(n)\<close> is the number it renders. A message whose body is missing has
  \<open>Body = None\<close>. Transport errors of the client are not modelled.
\<close>

record SqsJobMetadata =
  m_id :: string
  m_location :: string
  m_attempts :: nat
  m_maxAttempts :: int
  m_priority :: int
  m_scheduledFor :: int
  m_createdAt :: int
  m_startedAt :: "int option"

record 'd SqsBody =
  metadata :: SqsJobMetadata
  body_data :: 'd

datatype attr_value = StringValue string | NumberValue int | DateValue int

type_synonym MessageAttributes = "(string \<times> attr_value) list"

record 'd Message =
  Body :: "'d SqsBody option"
  ReceiptHandle :: string

datatype 'd sqs_command =
    SendMessageCommand (QueueUrl: string) (MessageBody: "'d SqsBody")
      (Attributes: MessageAttributes) (DelaySeconds: int)
  | ReceiveMessageCommand (QueueUrl: string) (MaxNumberOfMessages: nat)
      (WaitTimeSeconds: nat) (VisibilityTimeout: nat)
  | DeleteMessageCommand (QueueUrl: string) (Handle: string)

record 'd InFlightJob =
  job :: "'d Job"
  receiptHandle :: string

type_synonym 'd inFlightJobs = "string \<rightharpoonup> 'd InFlightJob"

definition sqs_enqueue ::
  "string \<Rightarrow> string \<Rightarrow> 'd \<Rightarrow> EnqueueOptions \<Rightarrow> int \<Rightarrow> string \<times> 'd sqs_command list" where
  "sqs_enqueue queueUrl jobId d options now =
     (let scheduledFor' = (case opt_runAt options of None \<Rightarrow> now | Some t \<Rightarrow> t);
          priority' = (case opt_priority options of None \<Rightarrow> 0 | Some p \<Rightarrow> p);
          maxAttempts' = (case opt_maxAttempts options of None \<Rightarrow> 3 | Some m \<Rightarrow> m);
          delaySeconds = max 0 (min 900 ((scheduledFor' - now) div 1000));
          md = \<lparr> m_id = jobId, m_location = opt_location options, m_attempts = 0,
                 m_maxAttempts = maxAttempts', m_priority = priority',
                 m_scheduledFor = scheduledFor', m_createdAt = now, m_startedAt = None \<rparr>;
          messageAttributes =
            [(''jobId'', StringValue jobId),
             (''location'', StringValue (opt_location options)),
             (''attempts'', NumberValue 0),
             (''maxAttempts'', NumberValue maxAttempts'),
             (''priority'', NumberValue priority'),
             (''scheduledFor'', DateValue scheduledFor'),
             (''createdAt'', DateValue now)]
      in (jobId,
          [SendMessageCommand queueUrl \<lparr> metadata = md, body_data = d \<rparr>
             messageAttributes delaySeconds]))"

definition sqs_dequeue ::
  "string \<Rightarrow> string option \<Rightarrow> int \<Rightarrow> 'd Message list option \<Rightarrow> 'd inFlightJobs \<Rightarrow>
     (thrown + 'd Job option) \<times> 'd sqs_command list \<times> 'd inFlightJobs" where
  "sqs_dequeue queueUrl loc now Messages inFlight =
     (let sent = [ReceiveMessageCommand queueUrl 1 20 300] in
      case Messages of
        None \<Rightarrow> (Inr None, sent, inFlight)
      | Some [] \<Rightarrow> (Inr None, sent, inFlight)
      | Some (message # _) \<Rightarrow>
          (case Body message of
             None \<Rightarrow> (Inl (TypeError ''Cannot read properties of undefined''), sent, inFlight)
           | Some body \<Rightarrow>
               (let md = metadata body in
                if location_given loc \<and> Some (m_location md) \<noteq> loc then
                  (Inr None, sent, inFlight)
                else
                  (let attempts' = m_attempts md + 1;
                       j = \<lparr> job_id = m_id md, data = body_data body,
                             location = m_location md, status = RUNNING,
                             attempts = attempts', maxAttempts = m_maxAttempts md,
                             priority = m_priority md, scheduledFor = m_scheduledFor md,
                             createdAt = m_createdAt md, startedAt = Some now,
                             completedAt = None, error = None \<rparr>
                   in (Inr (Some j), sent,
                       inFlight(m_id md \<mapsto>
                         \<lparr> job = j, receiptHandle = ReceiptHandle message \<rparr>))))))"

definition sqs_acknowledge ::
  "string \<Rightarrow> string \<Rightarrow> 'd inFlightJobs \<Rightarrow>
     (thrown + unit) \<times> 'd sqs_command list \<times> 'd inFlightJobs" where
  "sqs_acknowledge queueUrl jobId inFlight =
     (case inFlight jobId of
        None \<Rightarrow>
          (Inl (Error (''Job '' @ jobId @ '' not found in in-flight jobs. Cannot acknowledge.'')),
           [], inFlight)
      | Some entry \<Rightarrow>
          (Inr (), [DeleteMessageCommand queueUrl (receiptHandle entry)],
           inFlight(jobId := None)))"

definition sqs_fail ::
  "string \<Rightarrow> string \<Rightarrow> string \<Rightarrow> bool \<Rightarrow> int \<Rightarrow> 'd inFlightJobs \<Rightarrow>
     (thrown + unit) \<times> 'd sqs_command list \<times> 'd inFlightJobs" where
  "sqs_fail queueUrl jobId message retry now inFlight =
     (case inFlight jobId of
        None \<Rightarrow>
          (Inl (Error (''Job '' @ jobId @ '' not found in in-flight jobs. Cannot mark as failed.'')),
           [], inFlight)
      | Some entry \<Rightarrow>
          (let j = job entry;
               shouldRetry = (retry \<and> int (attempts j) < maxAttempts j);
               deleted = [DeleteMessageCommand queueUrl (receiptHandle entry)];
               resent =
                 (if shouldRetry then
                    (let backoffSeconds = min 900 (2 ^ attempts j);
                         nextRunAt = now + backoffSeconds * 1000;
                         md = \<lparr> m_id = job_id j, m_location = location j,
                                m_attempts = attempts j, m_maxAttempts = maxAttempts j,
                                m_priority = priority j, m_scheduledFor = nextRunAt,
                                m_createdAt = createdAt j, m_startedAt = startedAt j \<rparr>;
                         messageAttributes =
                           [(''jobId'', StringValue (job_id j)),
                            (''location'', StringValue (location j)),
                            (''attempts'', NumberValue (int (attempts j))),
                            (''maxAttempts'', NumberValue (maxAttempts j)),
                            (''priority'', NumberValue (priority j)),
                            (''scheduledFor'', DateValue nextRunAt),
                            (''createdAt'', DateValue (createdAt j)),
                            (''error'', StringValue message)]
                     in [SendMessageCommand queueUrl \<lparr> metadata = md, body_data = data j \<rparr>
                           messageAttributes backoffSeconds])
                  else [])
           in (Inr (), deleted @ resent, inFlight(jobId := None))))"

definition sqs_getStatus :: "string \<Rightarrow> 'd inFlightJobs \<Rightarrow> JobStatus option" where
  "sqs_getStatus jobId inFlight =
     (case inFlight jobId of Some entry \<Rightarrow> Some RUNNING | None \<Rightarrow> None)"

definition sqs_getJob :: "string \<Rightarrow> 'd inFlightJobs \<Rightarrow> 'd Job option" where
  "sqs_getJob jobId inFlight =
     (case inFlight jobId of Some entry \<Rightarrow> Some (job entry) | None \<Rightarrow> None)"

section \<open>Sequences of queue operations on the relational backend\<close>

text \<open>
  A client drives the queue through the four methods of the port. A run is a list of
  calls, each with the time at which it is made; a thrown error leaves the table as it
  was.
\<close>

datatype 'd queue_op =
    Enqueue string 'd EnqueueOptions
  | Dequeue "string option"
  | Acknowledge string
  | Fail string string bool

fun pg_step :: "string \<Rightarrow> int \<Rightarrow> 'd queue_op \<Rightarrow> 'd jobs_table \<Rightarrow> 'd jobs_table" where
  "pg_step queueName now (Enqueue new_id d options) tbl =
     snd (pg_enqueue queueName new_id d options now tbl)"
| "pg_step queueName now (Dequeue loc) tbl = snd (pg_dequeue queueName loc now tbl)"
| "pg_step queueName now (Acknowledge jobId) tbl = pg_acknowledge jobId now tbl"
| "pg_step queueName now (Fail jobId message retry) tbl =
     (case pg_fail jobId message retry now tbl of Inl e \<Rightarrow> tbl | Inr tbl' \<Rightarrow> tbl')"

fun pg_run :: "string \<Rightarrow> (int \<times> 'd queue_op) list \<Rightarrow> 'd jobs_table \<Rightarrow> 'd jobs_table" where
  "pg_run queueName [] tbl = tbl"
| "pg_run queueName ((now, op) # ops) tbl = pg_run queueName ops (pg_step queueName now op tbl)"

text \<open>
  The worker resolves only the job its own \<^verbatim>\<open>dequeue\<close> returned, which is running.
  \<open>resolves_running\<close> says that an acknowledge or fail call names rows that are
  running; \<open>resolves_only_running\<close> says so of every call of a run.
\<close>

fun resolves_running :: "'d queue_op \<Rightarrow> 'd jobs_table \<Rightarrow> bool" where
  "resolves_running (Acknowledge jobId) tbl =
     list_all (\<lambda>r. job_id r = jobId \<longrightarrow> status r = RUNNING) tbl"
| "resolves_running (Fail jobId message retry) tbl =
     list_all (\<lambda>r. job_id r = jobId \<longrightarrow> status r = RUNNING) tbl"
| "resolves_running _ tbl = True"

fun resolves_only_running ::
  "string \<Rightarrow> (int \<times> 'd queue_op) list \<Rightarrow> 'd jobs_table \<Rightarrow> bool" where
  "resolves_only_running queueName [] tbl = True"
| "resolves_only_running queueName ((now, op) # ops) tbl =
     (resolves_running op tbl \<and>
      resolves_only_running queueName ops (pg_step queueName now op tbl))"

text \<open>
  Only \<^verbatim>\<open>dequeue\<close> increments \<^verbatim>\<open>attempts\<close> and stamps \<^verbatim>\<open>started_at\<close>, so a row with
  \<open>1 \<le> attempts\<close> and a start time has been claimed.
\<close>

definition terminal :: "JobStatus \<Rightarrow> bool" where
  "terminal s \<longleftrightarrow> s = COMPLETED \<or> s = FAILED"

definition was_claimed :: "'d jobs_row \<Rightarrow> bool" where
  "was_claimed r \<longleftrightarrow> 1 \<le> attempts r \<and> startedAt r \<noteq> None"

definition claimed_unless_pending :: "'d jobs_table \<Rightarrow> bool" where
  "claimed_unless_pending tbl = list_all (\<lambda>r. status r \<noteq> PENDING \<longrightarrow> was_claimed r) tbl"

section \<open>The worker: \<^verbatim>\<open>WorkerService\<close>\<close>

text \<open>
  The worker's collaborators (the run store, the plan executor, the queue consumer)
  are outside it. One call of \<^verbatim>\<open>processJob\<close> is modelled against an environment that
  says, for each call the worker may make, whether it returns or throws (\<open>Inl\<close> the
  thrown message), and what the clock reads. The result is the list of calls made, in
  order, and whether \<^verbatim>\<open>processJob\<close> itself returns or throws.
\<close>

record WorkerConfig =
  cfg_emptyDelay :: "int option"
  cfg_maxEmptyDelay :: "int option"
  cfg_timeout :: "int option"

record WorkerService =
  worker_location :: string
  isRunning :: bool
  emptyDelay :: int
  maxEmptyDelay :: int
  currentEmptyDelay :: int
  timeout :: int

definition WorkerService_new :: "string \<Rightarrow> WorkerConfig \<Rightarrow> WorkerService" where
  "WorkerService_new loc config =
     (let e = (case cfg_emptyDelay config of None \<Rightarrow> 1000 | Some v \<Rightarrow> v) in
      \<lparr> worker_location = loc, isRunning = False, emptyDelay = e,
        maxEmptyDelay = (case cfg_maxEmptyDelay config of None \<Rightarrow> 30000 | Some v \<Rightarrow> v),
        currentEmptyDelay = e,
        timeout = (case cfg_timeout config of None \<Rightarrow> 30000 | Some v \<Rightarrow> v) \<rparr>)"

definition start :: "WorkerService \<Rightarrow> thrown + WorkerService" where
  "start w = (if isRunning w then Inl (Error ''Worker is already running'')
              else Inr (w\<lparr> isRunning := True \<rparr>))"

record Plan =
  plan_id :: string
  plan_name :: string
  organization :: "string option"

record ExecutionJobData =
  plan :: Plan
  jobRunId :: string
  environment :: string

record ExecutionResult =
  success :: bool
  errors :: "string list"

record RunPatch =
  patch_status :: string
  patch_completedAt :: "int option"
  patch_duration_ms :: "int option"
  patch_success :: "bool option"
  patch_errors :: "string list option"

datatype worker_call =
    RunsIdPatch string RunPatch
  | ExecutePlanV1 Plan
  | QueueAcknowledge string
  | QueueFail string string bool

record process_env =
  patch_running :: "string + unit"
  t_start :: int
  execute :: "string + ExecutionResult"
  t_end :: int
  patch_result :: "string + unit"
  acknowledge :: "string + unit"
  t_catch :: int
  patch_failed :: "string + unit"
  fail_outcome :: "string + unit"

text \<open>The three bodies that \<^verbatim>\<open>processJob\<close> sends to \<^verbatim>\<open>runsIdPatch\<close>.\<close>

definition running_patch :: RunPatch where
  "running_patch =
     \<lparr> patch_status = ''running'', patch_completedAt = None, patch_duration_ms = None,
       patch_success = None, patch_errors = None \<rparr>"

definition result_patch :: "ExecutionResult \<Rightarrow> int \<Rightarrow> int \<Rightarrow> RunPatch" where
  "result_patch result completed duration =
     \<lparr> patch_status = (if success result then ''completed'' else ''failed''),
       patch_completedAt = Some completed,
       patch_duration_ms = Some duration,
       patch_success = Some (success result),
       patch_errors = (if length (errors result) > 0 then Some (errors result) else None) \<rparr>"

definition failed_patch :: "int \<Rightarrow> string \<Rightarrow> RunPatch" where
  "failed_patch completed e =
     \<lparr> patch_status = ''failed'', patch_completedAt = Some completed,
       patch_duration_ms = None, patch_success = None, patch_errors = Some [e] \<rparr>"

text \<open>The \<^verbatim>\<open>try\<close> block of \<^verbatim>\<open>processJob\<close>: the calls made, and the error caught if any.\<close>

definition processJob_try ::
  "string \<Rightarrow> ExecutionJobData \<Rightarrow> process_env \<Rightarrow> worker_call list \<times> (string + unit)" where
  "processJob_try jobId d env =
     (let running = RunsIdPatch (jobRunId d) running_patch in
      case patch_running env of
        Inl e \<Rightarrow> ([running], Inl e)
      | Inr _ \<Rightarrow>
         (if organization (plan d) = None \<or> organization (plan d) = Some [] then
            ([running],
             Inl (''Plan '' @ plan_id (plan d) @ '' does not have an organization set''))
          else
            (case execute env of
               Inl e \<Rightarrow> ([running, ExecutePlanV1 (plan d)], Inl e)
             | Inr result \<Rightarrow>
                (let duration = t_end env - t_start env;
                     report = RunsIdPatch (jobRunId d) (result_patch result (t_end env) duration)
                 in case patch_result env of
                      Inl e \<Rightarrow> ([running, ExecutePlanV1 (plan d), report], Inl e)
                    | Inr _ \<Rightarrow>
                       ([running, ExecutePlanV1 (plan d), report, QueueAcknowledge jobId],
                        acknowledge env)))))"

text \<open>
  \<^verbatim>\<open>processJob\<close>: the \<^verbatim>\<open>catch\<close> block patches the run to failed and then calls \<^verbatim>\<open>fail\<close>
  with retry. An error of that patch is caught and logged, so both outcomes of
  \<open>patch_failed\<close> continue the same way; an error of \<^verbatim>\<open>fail\<close> escapes.
\<close>

definition processJob ::
  "string \<Rightarrow> ExecutionJobData \<Rightarrow> process_env \<Rightarrow> worker_call list \<times> (string + unit)" where
  "processJob jobId d env =
     (case processJob_try jobId d env of
        (calls, Inr _) \<Rightarrow> (calls, Inr ())
      | (calls, Inl e) \<Rightarrow>
          (let marked = RunsIdPatch (jobRunId d) (failed_patch (t_catch env) e) in
           case patch_failed env of
             Inl updateError \<Rightarrow> (calls @ [marked, QueueFail jobId e True], fail_outcome env)
           | Inr _ \<Rightarrow> (calls @ [marked, QueueFail jobId e True], fail_outcome env)))"

text \<open>
  \<^verbatim>\<open>runWorkerLoop\<close>: one element of the list per iteration of the \<^verbatim>\<open>while\<close> loop, saying
  what \<^verbatim>\<open>poll\<close> did; the list ends where \<^verbatim>\<open>stop\<close> clears \<^verbatim>\<open>isRunning\<close>. The result is
  what the loop did, in order, and the worker's fields at the end. A sleep is recorded
  with the place it is taken: after an empty poll, or in the loop's \<^verbatim>\<open>catch\<close>.
\<close>

datatype poll_outcome =
    PollNull
  | PollJob string ExecutionJobData process_env
  | PollThrows string

datatype loop_event =
    EmptySleep int
  | ErrorSleep int
  | Processed "worker_call list"

text \<open>One iteration of the \<^verbatim>\<open>while\<close> loop: the body of its \<^verbatim>\<open>try\<close> and its \<^verbatim>\<open>catch\<close>.\<close>

fun loop_iteration :: "poll_outcome \<Rightarrow> WorkerService \<Rightarrow> loop_event list \<times> WorkerService" where
  "loop_iteration PollNull w =
     ([EmptySleep (currentEmptyDelay w)],
      w\<lparr> currentEmptyDelay := min (currentEmptyDelay w * 2) (maxEmptyDelay w) \<rparr>)"
| "loop_iteration (PollJob jobId d env) w =
     (case processJob jobId d env of
        (calls, Inr _) \<Rightarrow> ([Processed calls], w\<lparr> currentEmptyDelay := emptyDelay w \<rparr>)
      | (calls, Inl e) \<Rightarrow>
          ([Processed calls, ErrorSleep 1000], w\<lparr> currentEmptyDelay := emptyDelay w \<rparr>))"
| "loop_iteration (PollThrows e) w = ([ErrorSleep 1000], w)"

fun runWorkerLoop :: "poll_outcome list \<Rightarrow> WorkerService \<Rightarrow> loop_event list \<times> WorkerService" where
  "runWorkerLoop [] w = ([], w)"
| "runWorkerLoop (p # rest) w =
     (if \<not> isRunning w then ([], w)
      else
        (case loop_iteration p w of
           (events, w') \<Rightarrow>
             (case runWorkerLoop rest w' of
                (later, w'') \<Rightarrow> (events @ later, w''))))"

text \<open>The sleeps a run took after empty polls, in order.\<close>

fun empty_sleeps :: "loop_event list \<Rightarrow> int list" where
  "empty_sleeps [] = []"
| "empty_sleeps (EmptySleep ms # events) = ms # empty_sleeps events"
| "empty_sleeps (_ # events) = empty_sleeps events"

text \<open>
  The delay the specification gives the \<open>k\<close>-th empty poll in a row: it starts at
  \<^verbatim>\<open>emptyDelay\<close> and doubles after each empty poll, up to at most \<^verbatim>\<open>maxEmptyDelay\<close>.
\<close>

fun spec_empty_delay :: "int \<Rightarrow> int \<Rightarrow> nat \<Rightarrow> int" where
  "spec_empty_delay e m 0 = e"
| "spec_empty_delay e m (Suc k) = min (spec_empty_delay e m k * 2) m"

section \<open>Example states\<close>

text \<open>Repeated \<^verbatim>\<open>dequeue\<close> calls at one time, collecting what each returns.\<close>

fun dequeue_times ::
  "nat \<Rightarrow> string \<Rightarrow> string option \<Rightarrow> int \<Rightarrow> 'd jobs_table \<Rightarrow> 'd Job option list" where
  "dequeue_times 0 queueName loc now tbl = []"
| "dequeue_times (Suc n) queueName loc now tbl =
     (case pg_dequeue queueName loc now tbl of
        (j, tbl') \<Rightarrow> j # dequeue_times n queueName loc now tbl')"

text \<open>Three jobs for one location, enqueued at time 0 with priorities 1, 5 and 3.\<close>

definition priority_options :: "int \<Rightarrow> EnqueueOptions" where
  "priority_options p =
     \<lparr> opt_location = ''us-east'', opt_runAt = Some 0, opt_priority = Some p,
       opt_maxAttempts = None \<rparr>"

definition priorities_table :: "unit jobs_table" where
  "priorities_table =
     snd (pg_enqueue ''default'' ''c'' () (priority_options 3) 0
       (snd (pg_enqueue ''default'' ''b'' () (priority_options 5) 0
         (snd (pg_enqueue ''default'' ''a'' () (priority_options 1) 0 [])))))"

text \<open>
  Two jobs for two locations, enqueued at time 0: \<open>e\<close> for \<^verbatim>\<open>us-east\<close> with priority 5,
  then \<open>w\<close> for \<^verbatim>\<open>eu-west\<close> with priority 1.
\<close>

definition location_options :: "string \<Rightarrow> int \<Rightarrow> EnqueueOptions" where
  "location_options l p =
     \<lparr> opt_location = l, opt_runAt = Some 0, opt_priority = Some p,
       opt_maxAttempts = None \<rparr>"

definition two_locations_table :: "unit jobs_table" where
  "two_locations_table =
     snd (pg_enqueue ''default'' ''w'' () (location_options ''eu-west'' 1) 0
       (snd (pg_enqueue ''default'' ''e'' () (location_options ''us-east'' 5) 0 [])))"

text \<open>
  One job with \<^verbatim>\<open>maxAttempts = 2\<close>: enqueued at time 0 and claimed at time 1
  (\<open>claimed_once\<close>); failed with retry at time 2 (\<open>failed_once\<close>), which schedules it
  for time 2002; claimed again at that time (\<open>claimed_twice\<close>).
\<close>

definition two_attempts_options :: EnqueueOptions where
  "two_attempts_options =
     \<lparr> opt_location = ''us-east'', opt_runAt = None, opt_priority = None,
       opt_maxAttempts = Some 2 \<rparr>"

definition claimed_once :: "unit jobs_table" where
  "claimed_once =
     pg_run ''default''
       [(0, Enqueue ''j1'' () two_attempts_options), (1, Dequeue (Some ''us-east''))] []"

definition failed_once :: "unit jobs_table" where
  "failed_once = pg_run ''default'' [(2, Fail ''j1'' ''first failure'' True)] claimed_once"

definition claimed_twice :: "unit jobs_table" where
  "claimed_twice = pg_run ''default'' [(2002, Dequeue (Some ''us-east''))] failed_once"

text \<open>
  The message the hosted queue delivers for a send command, under a receipt handle.
\<close>

definition delivered :: "'d sqs_command \<Rightarrow> string \<Rightarrow> 'd Message" where
  "delivered cmd handle = \<lparr> Body = Some (MessageBody cmd), ReceiptHandle = handle \<rparr>"

text \<open>
  The managed backend's in-flight map after a job with \<^verbatim>\<open>maxAttempts = n\<close>, enqueued at
  time 0, was received and claimed at time 5.
\<close>

definition sqs_options :: "int \<Rightarrow> EnqueueOptions" where
  "sqs_options n =
     \<lparr> opt_location = ''us-east'', opt_runAt = None, opt_priority = None,
       opt_maxAttempts = Some n \<rparr>"

definition sqs_message :: "int \<Rightarrow> unit Message" where
  "sqs_message n = delivered (hd (snd (sqs_enqueue ''url'' ''j1'' () (sqs_options n) 0))) ''rh-1''"

definition lease_of :: "int \<Rightarrow> unit inFlightJobs" where
  "lease_of n =
     snd (snd (sqs_dequeue ''url'' (Some ''us-east'') 5 (Some [sqs_message n]) Map.empty))"

text \<open>Runs of one client from the empty table.\<close>

definition claim_then_acknowledge :: "(int \<times> unit queue_op) list" where
  "claim_then_acknowledge =
     [(0, Enqueue ''j1'' () two_attempts_options), (1, Dequeue (Some ''us-east'')),
      (2, Acknowledge ''j1'')]"

definition acknowledge_unclaimed :: "(int \<times> unit queue_op) list" where
  "acknowledge_unclaimed =
     [(0, Enqueue ''j1'' () two_attempts_options), (1, Acknowledge ''j1'')]"

definition fail_unclaimed :: "(int \<times> unit queue_op) list" where
  "fail_unclaimed =
     [(0, Enqueue ''j1'' () two_attempts_options), (1, Fail ''j1'' ''cancelled'' False)]"

text \<open>A job to run one hour after it is enqueued at time 0.\<close>

definition in_one_hour :: EnqueueOptions where
  "in_one_hour =
     \<lparr> opt_location = ''us-east'', opt_runAt = Some 3600000, opt_priority = None,
       opt_maxAttempts = None \<rparr>"

text \<open>A worker built with no configuration and started.\<close>

definition default_config :: WorkerConfig where
  "default_config = \<lparr> cfg_emptyDelay = None, cfg_maxEmptyDelay = None, cfg_timeout = None \<rparr>"

definition started_worker :: WorkerService where
  "started_worker = projr (start (WorkerService_new ''us-east'' default_config))"

text \<open>
  A job whose plan runs and succeeds, while the run store refuses the report of the
  result and the later patch to failed.
\<close>

definition example_job :: ExecutionJobData where
  "example_job =
     \<lparr> plan = \<lparr> plan_id = ''p1'', plan_name = ''health'', organization = Some ''acme'' \<rparr>,
       jobRunId = ''run-1'', environment = ''prod'' \<rparr>"

definition report_refused :: process_env where
  "report_refused =
     \<lparr> patch_running = Inr (), t_start = 100,
       execute = Inr \<lparr> success = True, errors = [] \<rparr>, t_end = 350,
       patch_result = Inl ''hub unavailable'', acknowledge = Inr (), t_catch = 360,
       patch_failed = Inl ''hub unavailable'', fail_outcome = Inr () \<rparr>"

definition all_succeed :: process_env where
  "all_succeed =
     \<lparr> patch_running = Inr (), t_start = 100,
       execute = Inr \<lparr> success = True, errors = [] \<rparr>, t_end = 350,
       patch_result = Inr (), acknowledge = Inr (), t_catch = 360,
       patch_failed = Inr (), fail_outcome = Inr () \<rparr>"

section \<open>Facts about the relational backend\<close>

lemmas pg_defs = pg_enqueue_def pg_dequeue_def pg_acknowledge_def pg_fail_def pg_getJob_def
  pg_getStatus_def update_where_id_def row_to_job_def Job.truncate_def claim_row_def
  eligible_def comes_before_def

lemma order_by_limit_1_None: "order_by_limit_1 rs = None \<longleftrightarrow> rs = []"
  by (induction rs) (auto split: option.splits)

lemma order_by_limit_1_mem: "order_by_limit_1 rs = Some b \<Longrightarrow> b \<in> set rs"
  by (induction rs arbitrary: b) (auto split: option.splits if_splits)

lemma comes_before_asym: "comes_before c x \<Longrightarrow> \<not> comes_before x c"
  unfolding comes_before_def by linarith

lemma comes_before_irrefl: "\<not> comes_before x x"
  unfolding comes_before_def by linarith

lemma not_comes_before_trans:
  "\<not> comes_before r b \<Longrightarrow> \<not> comes_before b c \<Longrightarrow> \<not> comes_before r c"
  unfolding comes_before_def by linarith

lemma order_by_limit_1_best:
  "order_by_limit_1 rs = Some b \<Longrightarrow> r \<in> set rs \<Longrightarrow> \<not> comes_before r b"
proof (induction rs arbitrary: b)
  case Nil
  then show ?case by simp
next
  case (Cons x xs)
  show ?case
  proof (cases "order_by_limit_1 xs")
    case None
    then have "xs = []" by (simp add: order_by_limit_1_None)
    with Cons.prems None have "b = x" "r = x" by simp_all
    then show ?thesis using comes_before_irrefl by blast
  next
    case (Some c)
    show ?thesis
    proof (cases "comes_before c x")
      case True
      with Some Cons.prems(1) have b: "b = c" by simp
      show ?thesis
      proof (cases "r = x")
        case True
        show ?thesis unfolding b True using \<open>comes_before c x\<close> by (rule comes_before_asym)
      next
        case False
        with Cons.prems(2) have "r \<in> set xs" by simp
        with Cons.IH[OF Some] b show ?thesis by simp
      qed
    next
      case False
      with Some Cons.prems(1) have b: "b = x" by simp
      show ?thesis
      proof (cases "r = x")
        case True
        show ?thesis unfolding b True by (rule comes_before_irrefl)
      next
        case False
        with Cons.prems(2) have "r \<in> set xs" by simp
        with Cons.IH[OF Some] have "\<not> comes_before r c" by simp
        with \<open>\<not> comes_before c x\<close> b show ?thesis
          using not_comes_before_trans by blast
      qed
    qed
  qed
qed

lemma filter_id_distinct:
  "distinct (map job_id tbl) \<Longrightarrow> r \<in> set tbl \<Longrightarrow> filter (\<lambda>x. job_id x = job_id r) tbl = [r]"
  by (induction tbl) (auto simp: filter_empty_conv image_iff)

lemma update_where_id_distinct:
  assumes "distinct (map job_id tbl)" and "r \<in> set tbl"
  shows "update_where_id (job_id r) f tbl = map (\<lambda>x. if x = r then f x else x) tbl"
proof -
  have "inj_on job_id (set tbl)"
    using assms(1) by (simp add: distinct_map)
  then have "job_id x = job_id r \<longleftrightarrow> x = r" if "x \<in> set tbl" for x
    using that assms(2) by (auto dest: inj_onD)
  then show ?thesis
    unfolding update_where_id_def by (intro map_cong) simp_all
qed

lemma pg_dequeue_None:
  assumes "order_by_limit_1 (filter (eligible queueName loc now) tbl) = None"
  shows "pg_dequeue queueName loc now tbl = (None, tbl)"
    and "\<forall>r\<in>set tbl. \<not> eligible queueName loc now r"
proof -
  show "pg_dequeue queueName loc now tbl = (None, tbl)"
    using assms by (simp add: pg_dequeue_def)
  from assms have "filter (eligible queueName loc now) tbl = []"
    by (simp add: order_by_limit_1_None)
  then show "\<forall>r\<in>set tbl. \<not> eligible queueName loc now r"
    by (simp add: filter_empty_conv)
qed

lemma pg_dequeue_Some:
  assumes sel: "order_by_limit_1 (filter (eligible queueName loc now) tbl) = Some sel"
    and dist: "distinct (map job_id tbl)"
  shows "pg_dequeue queueName loc now tbl =
           (Some (row_to_job (claim_row now sel)),
            map (\<lambda>x. if x = sel then claim_row now x else x) tbl)"
    and "sel \<in> set tbl" and "eligible queueName loc now sel"
    and "\<forall>r'\<in>set tbl. eligible queueName loc now r' \<longrightarrow> \<not> comes_before r' sel"
proof -
  from sel have mem: "sel \<in> set (filter (eligible queueName loc now) tbl)"
    by (rule order_by_limit_1_mem)
  then show in_tbl: "sel \<in> set tbl" and "eligible queueName loc now sel"
    by simp_all
  show "\<forall>r'\<in>set tbl. eligible queueName loc now r' \<longrightarrow> \<not> comes_before r' sel"
    using order_by_limit_1_best[OF sel] by simp
  have one: "filter (\<lambda>r. job_id r = job_id sel) tbl = [sel]"
    using dist in_tbl by (rule filter_id_distinct)
  show "pg_dequeue queueName loc now tbl =
           (Some (row_to_job (claim_row now sel)),
            map (\<lambda>x. if x = sel then claim_row now x else x) tbl)"
    using sel one update_where_id_distinct[OF dist in_tbl, of "claim_row now"]
    by (simp add: pg_dequeue_def)
qed


section \<open>Dequeue on the relational backend claims the best eligible job\<close>

text \<open>
  C2, as amended. On the relational backend a row is eligible iff its status is
  pending, its \<^verbatim>\<open>scheduled_for\<close> is at most now, its queue name matches and, when a
  non-empty location is given as filter, its location is that one; with no location or
  the empty string every location is eligible. With job ids unique in the table,
  \<^verbatim>\<open>dequeue\<close> returns null and leaves the table alone exactly when no row is eligible;
  otherwise it claims one eligible row \<open>r\<close> such that every other eligible row has a
  lower priority, or the same priority and a \<^verbatim>\<open>scheduled_for\<close> that is not earlier. The
  job returned is that row set to running, with \<^verbatim>\<open>attempts\<close> incremented and
  \<^verbatim>\<open>started_at\<close> stamped, and that row is the only one the table changes.
\<close>

theorem pg_dequeue_claims_best:
  assumes "distinct (map job_id tbl)"
  shows
    "(\<forall>r. eligible queueName loc now r \<longleftrightarrow>
        status r = PENDING \<and> scheduledFor r \<le> now \<and> queue_name r = queueName \<and>
        (\<forall>l. loc = Some l \<and> l \<noteq> [] \<longrightarrow> location r = l)) \<and>
     (case pg_dequeue queueName loc now tbl of
        (None, tbl') \<Rightarrow> tbl' = tbl \<and> (\<forall>r\<in>set tbl. \<not> eligible queueName loc now r)
      | (Some j, tbl') \<Rightarrow>
          (\<exists>r\<in>set tbl. eligible queueName loc now r \<and>
             (\<forall>r'\<in>set tbl. eligible queueName loc now r' \<longrightarrow>
                priority r' < priority r \<or>
                (priority r' = priority r \<and> scheduledFor r \<le> scheduledFor r')) \<and>
             j = row_to_job
                   (r\<lparr> status := RUNNING, startedAt := Some now, attempts := attempts r + 1 \<rparr>) \<and>
             tbl' = map (\<lambda>x. if x = r
                              then x\<lparr> status := RUNNING, startedAt := Some now,
                                     attempts := attempts x + 1, updated_at := now \<rparr>
                              else x) tbl))"
proof (intro conjI)
  show "\<forall>r. eligible queueName loc now r \<longleftrightarrow>
        status r = PENDING \<and> scheduledFor r \<le> now \<and> queue_name r = queueName \<and>
        (\<forall>l. loc = Some l \<and> l \<noteq> [] \<longrightarrow> location r = l)"
    unfolding eligible_def by (cases loc) auto
next
  show "case pg_dequeue queueName loc now tbl of
        (None, tbl') \<Rightarrow> tbl' = tbl \<and> (\<forall>r\<in>set tbl. \<not> eligible queueName loc now r)
      | (Some j, tbl') \<Rightarrow>
          (\<exists>r\<in>set tbl. eligible queueName loc now r \<and>
             (\<forall>r'\<in>set tbl. eligible queueName loc now r' \<longrightarrow>
                priority r' < priority r \<or>
                (priority r' = priority r \<and> scheduledFor r \<le> scheduledFor r')) \<and>
             j = row_to_job
                   (r\<lparr> status := RUNNING, startedAt := Some now, attempts := attempts r + 1 \<rparr>) \<and>
             tbl' = map (\<lambda>x. if x = r
                              then x\<lparr> status := RUNNING, startedAt := Some now,
                                     attempts := attempts x + 1, updated_at := now \<rparr>
                              else x) tbl)"
  proof (cases "order_by_limit_1 (filter (eligible queueName loc now) tbl)")
    case None
    from pg_dequeue_None[OF None] show ?thesis by simp
  next
    case (Some sel)
    note facts = pg_dequeue_Some[OF Some assms]
    have best: "\<forall>r'\<in>set tbl. eligible queueName loc now r' \<longrightarrow>
                priority r' < priority sel \<or>
                (priority r' = priority sel \<and> scheduledFor sel \<le> scheduledFor r')"
      using facts(4) unfolding comes_before_def by (metis not_less_iff_gr_or_eq not_le)
    have job: "row_to_job (claim_row now sel) =
        row_to_job (sel\<lparr> status := RUNNING, startedAt := Some now, attempts := attempts sel + 1 \<rparr>)"
      by (simp add: row_to_job_def Job.truncate_def claim_row_def)
    have tbl: "map (\<lambda>x. if x = sel then claim_row now x else x) tbl =
        map (\<lambda>x. if x = sel
                  then x\<lparr> status := RUNNING, startedAt := Some now,
                         attempts := attempts x + 1, updated_at := now \<rparr>
                  else x) tbl"
      by (simp add: claim_row_def)
    show ?thesis
      unfolding facts(1) job tbl using facts(2,3) best by (simp; blast)
  qed
qed

theorem pg_dequeue_claims_best_witness:
  "distinct (map job_id priorities_table) \<and>
   map (map_option priority)
     (dequeue_times 4 ''default'' (Some ''us-east'') 10 priorities_table) =
     [Some 5, Some 3, Some 1, None] \<and>
   map (map_option status)
     (dequeue_times 4 ''default'' (Some ''us-east'') 10 priorities_table) =
     [Some RUNNING, Some RUNNING, Some RUNNING, None] \<and>
   distinct (map job_id two_locations_table) \<and>
   map (map_option job_id)
     (dequeue_times 2 ''default'' (Some ''eu-west'') 10 two_locations_table) =
     [Some ''w'', None] \<and>
   map (map_option job_id)
     (dequeue_times 3 ''default'' None 10 two_locations_table) =
     [Some ''e'', Some ''w'', None]"
proof -
  have d: "distinct (map job_id priorities_table)"
    by (simp add: priorities_table_def priority_options_def pg_defs)
  have d': "distinct (map job_id two_locations_table)"
    by (simp add: two_locations_table_def location_options_def pg_defs)
  have a: "map (map_option priority)
     (dequeue_times 4 ''default'' (Some ''us-east'') 10 priorities_table) =
     [Some 5, Some 3, Some 1, None] \<and>
   map (map_option status)
     (dequeue_times 4 ''default'' (Some ''us-east'') 10 priorities_table) =
     [Some RUNNING, Some RUNNING, Some RUNNING, None]"
    using pg_dequeue_claims_best [OF d, of "''default''" "Some ''us-east''" 10]
    by (simp add: priorities_table_def priority_options_def pg_defs numeral_eq_Suc)
  have b: "map (map_option job_id)
     (dequeue_times 2 ''default'' (Some ''eu-west'') 10 two_locations_table) =
     [Some ''w'', None] \<and>
   map (map_option job_id)
     (dequeue_times 3 ''default'' None 10 two_locations_table) =
     [Some ''e'', Some ''w'', None]"
    using pg_dequeue_claims_best [OF d', of "''default''" "Some ''eu-west''" 10]
    by (simp add: two_locations_table_def location_options_def pg_defs numeral_eq_Suc)
  from d d' a b show ?thesis by blast
qed

text \<open>
  With the empty string as location filter a row of any location is eligible:
  \<^verbatim>\<open>dequeue\<close> claims the \<^verbatim>\<open>us-east\<close> job first, for its higher priority, and then the
  \<^verbatim>\<open>eu-west\<close> one.
\<close>

theorem empty_filter_claims_every_location:
  "'''' \<noteq> ''us-east'' \<and> '''' \<noteq> ''eu-west'' \<and>
   map (map_option location)
     (dequeue_times 3 ''default'' (Some '''') 10 two_locations_table) =
     [Some ''us-east'', Some ''eu-west'', None]"
  by (simp add: two_locations_table_def location_options_def pg_defs numeral_eq_Suc)

section \<open>Facts about \<^verbatim>\<open>fail\<close>, \<^verbatim>\<open>acknowledge\<close> and the example states\<close>

lemmas sqs_defs = sqs_enqueue_def sqs_dequeue_def sqs_acknowledge_def sqs_fail_def
  sqs_getStatus_def sqs_getJob_def

lemmas example_defs = priority_options_def priorities_table_def two_attempts_options_def
  claimed_once_def failed_once_def claimed_twice_def delivered_def sqs_options_def
  sqs_message_def lease_of_def

lemma filter_update_same:
  assumes "\<And>r. job_id (f r) = job_id r"
  shows "filter (\<lambda>r. job_id r = jid) (update_where_id jid f tbl) =
         map f (filter (\<lambda>r. job_id r = jid) tbl)"
  unfolding update_where_id_def by (induction tbl) (simp_all add: assms)

lemma filter_update_other:
  assumes "\<And>r. job_id (f r) = job_id r" and "other \<noteq> jid"
  shows "filter (\<lambda>r. job_id r = other) (update_where_id jid f tbl) =
         filter (\<lambda>r. job_id r = other) tbl"
  unfolding update_where_id_def using assms(2) by (induction tbl) (simp_all add: assms(1))

lemma pg_getJob_update_same:
  assumes "\<And>r. job_id (f r) = job_id r"
  shows "pg_getJob jid (update_where_id jid f tbl) =
         (case filter (\<lambda>r. job_id r = jid) tbl of [] \<Rightarrow> None | row # _ \<Rightarrow> Some (row_to_job (f row)))"
  unfolding pg_getJob_def filter_update_same[of f, OF assms]
  by (simp split: list.splits)

lemma pg_getJob_update_other:
  assumes "\<And>r. job_id (f r) = job_id r" and "other \<noteq> jid"
  shows "pg_getJob other (update_where_id jid f tbl) = pg_getJob other tbl"
  unfolding pg_getJob_def filter_update_other[of f, OF assms] ..

lemma update_where_id_twice:
  assumes "\<And>r. job_id (f r) = job_id r"
  shows "update_where_id jid g (update_where_id jid f tbl) = update_where_id jid (\<lambda>r. g (f r)) tbl"
  unfolding update_where_id_def by (simp add: assms)

lemma pg_fail_found:
  assumes "pg_getJob jobId tbl = Some j"
  shows "\<exists>tbl'. pg_fail jobId message retry now tbl = Inr tbl' \<and>
          pg_getJob jobId tbl' =
            Some (if retry \<and> int (attempts j) < maxAttempts j
                  then j\<lparr> status := PENDING, error := Some message,
                          scheduledFor := now + 2 ^ attempts j * 1000 \<rparr>
                  else j\<lparr> status := FAILED, error := Some message,
                          completedAt := Some now \<rparr>) \<and>
          (\<forall>other. other \<noteq> jobId \<longrightarrow> pg_getJob other tbl' = pg_getJob other tbl)"
proof -
  from assms obtain row rest where
    rows: "filter (\<lambda>r. job_id r = jobId) tbl = row # rest" and j: "j = row_to_job row"
    by (auto simp: pg_getJob_def split: list.splits)
  show ?thesis
  proof (cases "retry \<and> int (attempts j) < maxAttempts j")
    case True
    let ?f = "\<lambda>r::'a jobs_row. r\<lparr> status := RETRYING, error := Some message,
                 scheduledFor := now + 2 ^ attempts j * 1000, updated_at := now \<rparr>\<lparr> status := PENDING \<rparr>"
    have fail: "pg_fail jobId message retry now tbl = Inr (update_where_id jobId ?f tbl)"
      using assms True by (simp add: pg_fail_def Let_def update_where_id_twice)
    have get: "pg_getJob jobId (update_where_id jobId ?f tbl) =
        Some (j\<lparr> status := PENDING, error := Some message,
                 scheduledFor := now + 2 ^ attempts j * 1000 \<rparr>)"
      by (simp add: pg_getJob_update_same rows j row_to_job_def Job.truncate_def)
    have other: "\<forall>other. other \<noteq> jobId \<longrightarrow>
        pg_getJob other (update_where_id jobId ?f tbl) = pg_getJob other tbl"
      by (simp add: pg_getJob_update_other)
    show ?thesis unfolding if_P[OF True] using fail get other by blast
  next
    case False
    let ?f = "\<lambda>r::'a jobs_row. r\<lparr> status := FAILED, error := Some message,
                 completedAt := Some now, updated_at := now \<rparr>"
    have fail: "pg_fail jobId message retry now tbl = Inr (update_where_id jobId ?f tbl)"
      using assms False by (auto simp add: pg_fail_def Let_def)
    have get: "pg_getJob jobId (update_where_id jobId ?f tbl) =
        Some (j\<lparr> status := FAILED, error := Some message, completedAt := Some now \<rparr>)"
      by (simp add: pg_getJob_update_same rows j row_to_job_def Job.truncate_def)
    have other: "\<forall>other. other \<noteq> jobId \<longrightarrow>
        pg_getJob other (update_where_id jobId ?f tbl) = pg_getJob other tbl"
      by (simp add: pg_getJob_update_other)
    show ?thesis unfolding if_not_P[OF False] using fail get other by blast
  qed
qed

lemma sqs_fail_found:
  assumes "inFlight jobId = Some entry"
  shows "\<exists>sent. sqs_fail queueUrl jobId message retry now inFlight =
            (Inr (), DeleteMessageCommand queueUrl (receiptHandle entry) # sent,
             inFlight(jobId := None)) \<and>
          (if retry \<and> int (attempts (job entry)) < maxAttempts (job entry)
           then \<exists>md attrs.
                  sent = [SendMessageCommand queueUrl
                            \<lparr> metadata = md, body_data = data (job entry) \<rparr> attrs
                            (min 900 (2 ^ attempts (job entry)))] \<and>
                  m_id md = job_id (job entry) \<and>
                  m_location md = location (job entry) \<and>
                  m_attempts md = attempts (job entry) \<and>
                  m_maxAttempts md = maxAttempts (job entry) \<and>
                  m_scheduledFor md = now + min 900 (2 ^ attempts (job entry)) * 1000 \<and>
                  (''error'', StringValue message) \<in> set attrs
           else sent = [])"
  using assms by (simp add: sqs_fail_def Let_def)


lemma filter_none_update:
  assumes "jobId \<notin> job_id ` set tbl"
  shows "update_where_id jobId f tbl = tbl"
  unfolding update_where_id_def using assms by (induction tbl) auto

lemma pg_acknowledge_found:
  assumes "pg_getJob jobId tbl = Some j"
  shows "pg_getJob jobId (pg_acknowledge jobId t tbl) =
           Some (j\<lparr> status := COMPLETED, completedAt := Some t \<rparr>)"
proof -
  from assms obtain row rest where
    rows: "filter (\<lambda>r. job_id r = jobId) tbl = row # rest" and j: "j = row_to_job row"
    by (auto simp: pg_getJob_def split: list.splits)
  show ?thesis
    unfolding pg_acknowledge_def
    by (simp add: pg_getJob_update_same rows j row_to_job_def Job.truncate_def)
qed

lemma claimed_once_job:
  "pg_getJob ''j1'' claimed_once =
     Some \<lparr> job_id = ''j1'', data = (), location = ''us-east'', status = RUNNING,
            attempts = 1, maxAttempts = 2, priority = 0, scheduledFor = 0,
            createdAt = 0, startedAt = Some 1, completedAt = None, error = None \<rparr>"
  by (simp add: example_defs pg_defs)


lemma claimed_twice_job:
  "pg_getJob ''j1'' claimed_twice =
     Some \<lparr> job_id = ''j1'', data = (), location = ''us-east'', status = RUNNING,
            attempts = 2, maxAttempts = 2, priority = 0, scheduledFor = 2002,
            createdAt = 0, startedAt = Some 2002, completedAt = None,
            error = Some ''first failure'' \<rparr>"
  by (simp add: example_defs pg_defs)

lemma lease_of_entry:
  "lease_of n ''j1'' =
     Some \<lparr> job = \<lparr> job_id = ''j1'', data = (), location = ''us-east'', status = RUNNING,
                   attempts = 1, maxAttempts = n, priority = 0, scheduledFor = 0,
                   createdAt = 0, startedAt = Some 5, completedAt = None, error = None \<rparr>,
            receiptHandle = ''rh-1'' \<rparr>"
  by (simp add: example_defs sqs_defs Let_def)


lemmas run_defs = claim_then_acknowledge_def acknowledge_unclaimed_def fail_unclaimed_def
  in_one_hour_def


section \<open>Facts about the worker loop\<close>

lemma loop_iteration_fields:
  "isRunning (snd (loop_iteration p w)) = isRunning w \<and>
   emptyDelay (snd (loop_iteration p w)) = emptyDelay w \<and>
   maxEmptyDelay (snd (loop_iteration p w)) = maxEmptyDelay w"
  by (cases p) (simp_all split: prod.splits sum.splits)

lemma runWorkerLoop_Cons:
  "runWorkerLoop (p # rest) w =
     (if \<not> isRunning w then ([], w)
      else (fst (loop_iteration p w) @ fst (runWorkerLoop rest (snd (loop_iteration p w))),
            snd (runWorkerLoop rest (snd (loop_iteration p w)))))"
  by (simp split: prod.splits)

lemma runWorkerLoop_fields:
  "isRunning (snd (runWorkerLoop outs w)) = isRunning w \<and>
   emptyDelay (snd (runWorkerLoop outs w)) = emptyDelay w \<and>
   maxEmptyDelay (snd (runWorkerLoop outs w)) = maxEmptyDelay w"
proof (induction outs arbitrary: w)
  case Nil
  then show ?case by simp
next
  case (Cons p rest)
  show ?case
    using Cons.IH[of "snd (loop_iteration p w)"] loop_iteration_fields[of p w]
    by (simp add: runWorkerLoop_Cons del: runWorkerLoop.simps(2))
qed

lemma runWorkerLoop_append:
  assumes "isRunning w"
  shows "runWorkerLoop (xs @ ys) w =
           (fst (runWorkerLoop xs w) @ fst (runWorkerLoop ys (snd (runWorkerLoop xs w))),
            snd (runWorkerLoop ys (snd (runWorkerLoop xs w))))"
  using assms
proof (induction xs arbitrary: w)
  case Nil
  then show ?case by simp
next
  case (Cons p rest)
  have "isRunning (snd (loop_iteration p w))"
    using Cons.prems loop_iteration_fields[of p w] by simp
  from Cons.IH[OF this] Cons.prems show ?case
    by (simp add: runWorkerLoop_Cons del: runWorkerLoop.simps(2))
qed

lemma empty_sleeps_append: "empty_sleeps (xs @ ys) = empty_sleeps xs @ empty_sleeps ys"
  by (induction xs rule: empty_sleeps.induct) simp_all

lemma empty_polls_sleeps:
  assumes "isRunning w"
  shows "empty_sleeps (fst (runWorkerLoop (replicate n PollNull) w)) =
           map (\<lambda>k. ((\<lambda>ms. min (ms * 2) (maxEmptyDelay w)) ^^ k) (currentEmptyDelay w)) [0..<n]"
  using assms
proof (induction n arbitrary: w)
  case 0
  then show ?case by simp
next
  case (Suc n)
  let ?w' = "w\<lparr> currentEmptyDelay := min (currentEmptyDelay w * 2) (maxEmptyDelay w) \<rparr>"
  have step: "empty_sleeps (fst (runWorkerLoop (replicate (Suc n) PollNull) w)) =
      currentEmptyDelay w # empty_sleeps (fst (runWorkerLoop (replicate n PollNull) ?w'))"
    using Suc.prems by (simp add: runWorkerLoop_Cons del: runWorkerLoop.simps(2))
  have ih: "empty_sleeps (fst (runWorkerLoop (replicate n PollNull) ?w')) =
      map (\<lambda>k. ((\<lambda>ms. min (ms * 2) (maxEmptyDelay w)) ^^ k)
                  (min (currentEmptyDelay w * 2) (maxEmptyDelay w))) [0..<n]"
    using Suc.IH[of ?w'] Suc.prems by simp
  have shift: "map (\<lambda>k. ((\<lambda>ms. min (ms * 2) (maxEmptyDelay w)) ^^ k)
                  (min (currentEmptyDelay w * 2) (maxEmptyDelay w))) [0..<n] =
      map (\<lambda>k. ((\<lambda>ms. min (ms * 2) (maxEmptyDelay w)) ^^ k) (currentEmptyDelay w))
        (map Suc [0..<n])"
    by (simp add: funpow_Suc_right del: funpow.simps)
  have upt: "[0..<Suc n] = 0 # map Suc [0..<n]"
    by (simp add: upt_conv_Cons map_Suc_upt del: upt_Suc)
  show ?case unfolding step ih shift upt by simp
qed

lemma doubling_closed_form:
  assumes "0 \<le> (m::int)" and "e \<le> m"
  shows "((\<lambda>ms. min (ms * 2) m) ^^ k) e = min (e * 2 ^ k) m"
proof (induction k)
  case 0
  with assms show ?case by simp
next
  case (Suc k)
  have "min (min (e * 2 ^ k) m * 2) m = min (e * 2 ^ k * 2) m"
    using assms(1) by (simp add: min_def)
  with Suc show ?case by (simp add: mult.assoc mult.commute)
qed

lemma reset_after_job:
  assumes "isRunning w"
  shows "currentEmptyDelay (snd (runWorkerLoop (outs @ [PollJob jobId d env]) w)) = emptyDelay w"
proof -
  let ?w1 = "snd (runWorkerLoop outs w)"
  have run: "isRunning ?w1" and e: "emptyDelay ?w1 = emptyDelay w"
    using assms runWorkerLoop_fields[of outs w] by simp_all
  have "currentEmptyDelay (snd (runWorkerLoop [PollJob jobId d env] ?w1)) = emptyDelay ?w1"
    using run by (simp add: runWorkerLoop_Cons split: prod.splits sum.splits del: runWorkerLoop.simps(2))
  then show ?thesis
    using assms e by (simp add: runWorkerLoop_append)
qed


lemma spec_empty_delay_funpow:
  "((\<lambda>ms. min (ms * 2) m) ^^ k) e = spec_empty_delay e m k"
  by (induction k) simp_all

lemma spec_empty_delay_closed_form:
  assumes "0 \<le> m" and "e \<le> m"
  shows "spec_empty_delay e m k = min (e * 2 ^ k) m"
  using doubling_closed_form[OF assms, of k] by (simp add: spec_empty_delay_funpow)

lemma empty_polls_after_job:
  assumes "isRunning w"
  shows "empty_sleeps (fst (runWorkerLoop (outs @ PollJob jobId d env # replicate n PollNull) w)) =
           empty_sleeps (fst (runWorkerLoop outs w)) @
           map (spec_empty_delay (emptyDelay w) (maxEmptyDelay w)) [0..<n]"
proof -
  let ?pre = "outs @ [PollJob jobId d env]"
  let ?w1 = "snd (runWorkerLoop ?pre w)"
  have split: "outs @ PollJob jobId d env # replicate n PollNull = ?pre @ replicate n PollNull"
    by simp
  have w1: "isRunning ?w1" "maxEmptyDelay ?w1 = maxEmptyDelay w"
    using assms runWorkerLoop_fields[of ?pre w] by simp_all
  have cur: "currentEmptyDelay ?w1 = emptyDelay w"
    using assms by (rule reset_after_job)
  have pre: "empty_sleeps (fst (runWorkerLoop ?pre w)) = empty_sleeps (fst (runWorkerLoop outs w))"
  proof -
    have "isRunning (snd (runWorkerLoop outs w))"
      using assms runWorkerLoop_fields[of outs w] by simp
    then have "empty_sleeps (fst (runWorkerLoop [PollJob jobId d env] (snd (runWorkerLoop outs w)))) = []"
      by (simp split: prod.splits sum.splits)
    then show ?thesis
      using assms by (simp add: runWorkerLoop_append empty_sleeps_append)
  qed
  have tail: "empty_sleeps (fst (runWorkerLoop (replicate n PollNull) ?w1)) =
      map (spec_empty_delay (emptyDelay w) (maxEmptyDelay w)) [0..<n]"
    unfolding empty_polls_sleeps[OF w1(1)] w1(2) cur spec_empty_delay_funpow ..
  have "empty_sleeps (fst (runWorkerLoop (?pre @ replicate n PollNull) w)) =
      empty_sleeps (fst (runWorkerLoop ?pre w)) @
      empty_sleeps (fst (runWorkerLoop (replicate n PollNull) ?w1))"
    unfolding runWorkerLoop_append[OF assms, of ?pre] fst_conv empty_sleeps_append ..
  then show ?thesis
    unfolding split pre tail .
qed


lemmas worker_defs = default_config_def started_worker_def example_job_def report_refused_def
  all_succeed_def WorkerService_new_def start_def

lemma started_worker_eq:
  "start (WorkerService_new ''us-east'' default_config) = Inr started_worker"
  by (simp add: worker_defs)

lemma started_worker_fields:
  "isRunning started_worker" "emptyDelay started_worker = 1000"
  "maxEmptyDelay started_worker = 30000"
  by (simp_all add: worker_defs)










section \<open>What \<^verbatim>\<open>fail\<close> does to a claimed job\<close>

text \<open>
  C3, as amended. On the relational backend, \<^verbatim>\<open>fail\<close> on a stored job with \<^verbatim>\<open>retry\<close> true
  and \<^verbatim>\<open>attempts < maxAttempts\<close> records the error, sets \<^verbatim>\<open>scheduled_for\<close> to the failure
  time plus \<^verbatim>\<open>2^attempts\<close> seconds and returns the job to pending; otherwise it marks the
  job failed, stamps \<^verbatim>\<open>completed_at\<close> and records the error; no other job changes. On
  the managed backend, \<^verbatim>\<open>fail\<close> on a leased job always deletes the current message and
  drops the lease; when retrying it sends a new message that carries the same
  attempts, a \<^verbatim>\<open>scheduledFor\<close> of the failure time plus \<^verbatim>\<open>min(900, 2^attempts)\<close> seconds,
  that delay, and the error as an attribute; when not retrying it sends nothing more,
  so the managed backend keeps no failed status, completion time or error.
\<close>

theorem fail_retries_or_ends:
  "(pg_getJob jobId tbl = Some j \<longrightarrow>
      (\<exists>tbl'. pg_fail jobId message retry now tbl = Inr tbl' \<and>
         pg_getJob jobId tbl' =
           Some (if retry \<and> int (attempts j) < maxAttempts j
                 then j\<lparr> status := PENDING, error := Some message,
                         scheduledFor := now + 2 ^ attempts j * 1000 \<rparr>
                 else j\<lparr> status := FAILED, error := Some message,
                         completedAt := Some now \<rparr>) \<and>
         (\<forall>other. other \<noteq> jobId \<longrightarrow> pg_getJob other tbl' = pg_getJob other tbl))) \<and>
   (inFlight jobId = Some entry \<longrightarrow>
      (\<exists>sent. sqs_fail queueUrl jobId message retry now inFlight =
            (Inr (), DeleteMessageCommand queueUrl (receiptHandle entry) # sent,
             inFlight(jobId := None)) \<and>
          (if retry \<and> int (attempts (job entry)) < maxAttempts (job entry)
           then \<exists>md attrs.
                  sent = [SendMessageCommand queueUrl
                            \<lparr> metadata = md, body_data = data (job entry) \<rparr> attrs
                            (min 900 (2 ^ attempts (job entry)))] \<and>
                  m_id md = job_id (job entry) \<and>
                  m_location md = location (job entry) \<and>
                  m_attempts md = attempts (job entry) \<and>
                  m_maxAttempts md = maxAttempts (job entry) \<and>
                  m_scheduledFor md = now + min 900 (2 ^ attempts (job entry)) * 1000 \<and>
                  (''error'', StringValue message) \<in> set attrs
           else sent = [])))"
  using pg_fail_found[of jobId tbl j message retry now]
    sqs_fail_found[of inFlight jobId entry queueUrl message retry now]
  by blast

theorem fail_retries_or_ends_witness:
  "map_option status (pg_getJob ''j1'' failed_once) = Some PENDING \<and>
   map_option scheduledFor (pg_getJob ''j1'' failed_once) = Some 2002 \<and>
   map_option attempts (pg_getJob ''j1'' claimed_twice) = Some 2 \<and>
   map_option maxAttempts (pg_getJob ''j1'' claimed_twice) = Some 2 \<and>
   (\<exists>tbl'. pg_fail ''j1'' ''second failure'' True 2003 claimed_twice = Inr tbl' \<and>
      map_option status (pg_getJob ''j1'' tbl') = Some FAILED \<and>
      map_option completedAt (pg_getJob ''j1'' tbl') = Some (Some 2003) \<and>
      map_option error (pg_getJob ''j1'' tbl') = Some (Some ''second failure'')) \<and>
   (\<exists>md attrs. sqs_fail ''url'' ''j1'' ''boom'' True 6 (lease_of 3) =
      (Inr (), [DeleteMessageCommand ''url'' ''rh-1'',
                SendMessageCommand ''url'' \<lparr> metadata = md, body_data = () \<rparr> attrs 2],
       (lease_of 3)(''j1'' := None)) \<and>
      m_attempts md = 1 \<and> m_scheduledFor md = 2006)"
proof -
  have a: "map_option status (pg_getJob ''j1'' failed_once) = Some PENDING \<and>
           map_option scheduledFor (pg_getJob ''j1'' failed_once) = Some 2002"
    by (simp add: example_defs pg_defs)
  note pg = fail_retries_or_ends
    [where jobId = "''j1''" and tbl = claimed_twice and message = "''second failure''"
       and retry = True and now = 2003,
     THEN conjunct1, THEN mp, OF claimed_twice_job]
  note sqs = fail_retries_or_ends
    [where jobId = "''j1''" and inFlight = "lease_of 3" and message = "''boom''"
       and retry = True and now = 6 and queueUrl = "''url''",
     THEN conjunct2, THEN mp, OF lease_of_entry]
  have b: "map_option attempts (pg_getJob ''j1'' claimed_twice) = Some 2 \<and>
           map_option maxAttempts (pg_getJob ''j1'' claimed_twice) = Some 2"
    by (simp add: claimed_twice_job)
  from pg have c: "\<exists>tbl'. pg_fail ''j1'' ''second failure'' True 2003 claimed_twice = Inr tbl' \<and>
      map_option status (pg_getJob ''j1'' tbl') = Some FAILED \<and>
      map_option completedAt (pg_getJob ''j1'' tbl') = Some (Some 2003) \<and>
      map_option error (pg_getJob ''j1'' tbl') = Some (Some ''second failure'')"
    by auto
  from sqs have d: "\<exists>md attrs. sqs_fail ''url'' ''j1'' ''boom'' True 6 (lease_of 3) =
      (Inr (), [DeleteMessageCommand ''url'' ''rh-1'',
                SendMessageCommand ''url'' \<lparr> metadata = md, body_data = () \<rparr> attrs 2],
       (lease_of 3)(''j1'' := None)) \<and>
      m_attempts md = 1 \<and> m_scheduledFor md = 2006"
    by auto
  from a b c d show ?thesis by blast
qed


text \<open>
  On the managed backend a job that has used up its attempts is not marked failed:
  the only command is the delete, and afterwards the backend knows nothing of the job.
\<close>

theorem sqs_fail_keeps_no_failed_job:
  "sqs_fail ''url'' ''j1'' ''boom'' True 6 (lease_of 1) =
     (Inr (), [DeleteMessageCommand ''url'' ''rh-1''], (lease_of 1)(''j1'' := None)) \<and>
   sqs_getStatus ''j1'' (snd (snd (sqs_fail ''url'' ''j1'' ''boom'' True 6 (lease_of 1)))) \<noteq>
     Some FAILED \<and>
   sqs_getJob ''j1'' (snd (snd (sqs_fail ''url'' ''j1'' ''boom'' True 6 (lease_of 1)))) = None"
  by (simp add: sqs_fail_def sqs_getStatus_def sqs_getJob_def lease_of_entry)

section \<open>Terminal states and claims\<close>

lemma list_all_update_where_id:
  assumes "list_all P tbl" and "\<And>r. r \<in> set tbl \<Longrightarrow> job_id r = jid \<Longrightarrow> P r \<Longrightarrow> P (f r)"
  shows "list_all P (update_where_id jid f tbl)"
  using assms unfolding update_where_id_def list_all_iff by auto

lemma was_claimed_claim_row: "was_claimed (claim_row now r)"
  by (simp add: was_claimed_def claim_row_def)

lemma claimed_unless_pending_dequeue:
  assumes "claimed_unless_pending tbl"
  shows "claimed_unless_pending (snd (pg_dequeue queueName loc now tbl))"
proof (cases "order_by_limit_1 (filter (eligible queueName loc now) tbl)")
  case None
  with assms show ?thesis by (simp add: pg_dequeue_def)
next
  case (Some sel)
  have "claimed_unless_pending (update_where_id (job_id sel) (claim_row now) tbl)"
    using assms unfolding claimed_unless_pending_def
    by (rule list_all_update_where_id) (simp add: was_claimed_claim_row)
  with Some show ?thesis
    by (simp add: pg_dequeue_def Let_def split: list.splits)
qed

lemma claimed_unless_pending_enqueue:
  assumes "claimed_unless_pending tbl"
  shows "claimed_unless_pending (snd (pg_enqueue queueName new_id d options now tbl))"
  using assms by (simp add: claimed_unless_pending_def pg_enqueue_def Let_def)

lemma claimed_unless_pending_acknowledge:
  assumes "claimed_unless_pending tbl"
    and "list_all (\<lambda>r. job_id r = jobId \<longrightarrow> status r = RUNNING) tbl"
  shows "claimed_unless_pending (pg_acknowledge jobId now tbl)"
  unfolding pg_acknowledge_def claimed_unless_pending_def
proof (rule list_all_update_where_id)
  show "list_all (\<lambda>r. status r \<noteq> PENDING \<longrightarrow> was_claimed r) tbl"
    using assms(1) by (simp add: claimed_unless_pending_def)
next
  fix r assume "r \<in> set tbl" "job_id r = jobId" "status r \<noteq> PENDING \<longrightarrow> was_claimed r"
  moreover from this assms(2) have "status r = RUNNING" by (simp add: list_all_iff)
  ultimately show "status (r\<lparr>status := COMPLETED, completedAt := Some now, updated_at := now\<rparr>) \<noteq> PENDING
      \<longrightarrow> was_claimed (r\<lparr>status := COMPLETED, completedAt := Some now, updated_at := now\<rparr>)"
    by (simp add: was_claimed_def)
qed

lemma claimed_unless_pending_fail:
  assumes "claimed_unless_pending tbl"
    and "list_all (\<lambda>r. job_id r = jobId \<longrightarrow> status r = RUNNING) tbl"
  shows "claimed_unless_pending
           (case pg_fail jobId message retry now tbl of Inl e \<Rightarrow> tbl | Inr tbl' \<Rightarrow> tbl')"
proof (cases "pg_getJob jobId tbl")
  case None
  with assms(1) show ?thesis by (simp add: pg_fail_def)
next
  case (Some j)
  have inv: "list_all (\<lambda>r. status r \<noteq> PENDING \<longrightarrow> was_claimed r) tbl"
    using assms(1) by (simp add: claimed_unless_pending_def)
  have running: "status r = RUNNING" if "r \<in> set tbl" "job_id r = jobId" for r
    using that assms(2) by (simp add: list_all_iff)
  show ?thesis
  proof (cases "retry \<and> int (attempts j) < maxAttempts j")
    case True
    have "list_all (\<lambda>r. status r \<noteq> PENDING \<longrightarrow> was_claimed r)
            (update_where_id jobId
               (\<lambda>r. r\<lparr> status := RETRYING, error := Some message,
                       scheduledFor := now + 2 ^ attempts j * 1000, updated_at := now \<rparr>
                      \<lparr> status := PENDING \<rparr>) tbl)"
      using inv by (rule list_all_update_where_id) simp
    with Some True show ?thesis
      by (simp add: pg_fail_def Let_def update_where_id_twice claimed_unless_pending_def)
  next
    case False
    have "list_all (\<lambda>r. status r \<noteq> PENDING \<longrightarrow> was_claimed r)
            (update_where_id jobId
               (\<lambda>r. r\<lparr> status := FAILED, error := Some message,
                       completedAt := Some now, updated_at := now \<rparr>) tbl)"
      using inv
    proof (rule list_all_update_where_id)
      fix r assume r: "r \<in> set tbl" "job_id r = jobId" "status r \<noteq> PENDING \<longrightarrow> was_claimed r"
      with running[of r] have "was_claimed r" by simp
      then show "status (r\<lparr> status := FAILED, error := Some message,
                       completedAt := Some now, updated_at := now \<rparr>) \<noteq> PENDING \<longrightarrow>
           was_claimed (r\<lparr> status := FAILED, error := Some message,
                       completedAt := Some now, updated_at := now \<rparr>)"
        by (simp add: was_claimed_def)
    qed
    with Some False show ?thesis
      by (auto simp add: pg_fail_def Let_def claimed_unless_pending_def)
  qed
qed

lemma claimed_unless_pending_step:
  assumes "claimed_unless_pending tbl" and "resolves_running op tbl"
  shows "claimed_unless_pending (pg_step queueName now op tbl)"
proof (cases op)
  case (Enqueue new_id d options)
  with assms(1) show ?thesis by (simp add: claimed_unless_pending_enqueue)
next
  case (Dequeue loc)
  with assms(1) show ?thesis by (simp add: claimed_unless_pending_dequeue)
next
  case (Acknowledge jobId)
  with assms show ?thesis by (simp add: claimed_unless_pending_acknowledge)
next
  case (Fail jobId message retry)
  with assms show ?thesis by (simp add: claimed_unless_pending_fail)
qed

lemma claimed_unless_pending_run:
  assumes "claimed_unless_pending tbl" and "resolves_only_running queueName ops tbl"
  shows "claimed_unless_pending (pg_run queueName ops tbl)"
  using assms
proof (induction ops arbitrary: tbl)
  case Nil
  then show ?case by simp
next
  case (Cons a ops)
  obtain now op where a: "a = (now, op)" by (cases a)
  from Cons.prems have "claimed_unless_pending (pg_step queueName now op tbl)"
    unfolding a by (simp add: claimed_unless_pending_step)
  moreover from Cons.prems have "resolves_only_running queueName ops (pg_step queueName now op tbl)"
    unfolding a by simp
  ultimately show ?case unfolding a by (simp add: Cons.IH)
qed

text \<open>
  C4, as amended. On the relational backend, start from a table in which every row
  that is not pending has been claimed (the empty table, say). In any run of queue
  operations whose acknowledge and fail calls name only running jobs (as the worker's
  do, which resolves the job its own \<^verbatim>\<open>dequeue\<close> returned), every row that is completed
  or failed has \<open>1 \<le> attempts\<close> and a start time, that is, a \<^verbatim>\<open>dequeue\<close> claimed it
  before: such a run moves no never-claimed job to a terminal state. The backend
  itself does not check the status in \<^verbatim>\<open>acknowledge\<close> or \<^verbatim>\<open>fail\<close>.
\<close>

theorem terminal_only_after_claim:
  assumes "claimed_unless_pending tbl"
    and "resolves_only_running queueName ops tbl"
  shows "\<forall>r\<in>set (pg_run queueName ops tbl).
           terminal (status r) \<longrightarrow> 1 \<le> attempts r \<and> startedAt r \<noteq> None"
proof -
  from assms have "claimed_unless_pending (pg_run queueName ops tbl)"
    by (rule claimed_unless_pending_run)
  then show ?thesis
    by (auto simp: claimed_unless_pending_def was_claimed_def list_all_iff terminal_def)
qed

theorem terminal_only_after_claim_witness:
  "claimed_unless_pending ([] :: unit jobs_table) \<and>
   resolves_only_running ''default'' claim_then_acknowledge [] \<and>
   map status (pg_run ''default'' claim_then_acknowledge []) = [COMPLETED] \<and>
   map attempts (pg_run ''default'' claim_then_acknowledge []) = [1] \<and>
   map startedAt (pg_run ''default'' claim_then_acknowledge []) = [Some 1]"
proof -
  have a: "claimed_unless_pending ([] :: unit jobs_table)"
    by (simp add: claimed_unless_pending_def)
  have b: "resolves_only_running ''default'' claim_then_acknowledge []"
    by (simp add: run_defs example_defs pg_defs)
  have c: "map status (pg_run ''default'' claim_then_acknowledge []) = [COMPLETED]"
    by (simp add: run_defs example_defs pg_defs)
  have d: "map attempts (pg_run ''default'' claim_then_acknowledge []) = [1] \<and>
           map startedAt (pg_run ''default'' claim_then_acknowledge []) = [Some 1]"
    using terminal_only_after_claim [OF a b]
    by (simp add: run_defs example_defs pg_defs)
  from a b c d show ?thesis by blast
qed

text \<open>
  Acknowledging, or failing without retry, a job that was enqueued and never claimed
  moves it from pending straight to completed, or to failed, with \<open>attempts = 0\<close>.
\<close>

theorem acknowledge_skips_running:
  "map status (pg_run ''default'' acknowledge_unclaimed []) = [COMPLETED] \<and>
   map attempts (pg_run ''default'' acknowledge_unclaimed []) = [0] \<and>
   map startedAt (pg_run ''default'' acknowledge_unclaimed []) = [None] \<and>
   map status (pg_run ''default'' fail_unclaimed []) = [FAILED] \<and>
   map attempts (pg_run ''default'' fail_unclaimed []) = [0]"
  by (simp add: run_defs example_defs pg_defs)


section \<open>Acknowledging twice\<close>

text \<open>
  C5, as amended. On the relational backend \<^verbatim>\<open>acknowledge\<close> never raises: the first call
  on a stored job marks it completed and stamps \<^verbatim>\<open>completed_at\<close>, a second call leaves
  it completed (and stamps \<^verbatim>\<open>completed_at\<close> again), and a call on an unknown id changes
  nothing. On the managed backend the first \<^verbatim>\<open>acknowledge\<close> of a leased job deletes its
  message and drops the lease; a second \<^verbatim>\<open>acknowledge\<close> of the same id raises an error,
  sends nothing and leaves the leases as they are.
\<close>

theorem acknowledge_twice:
  "(pg_getJob jobId tbl = Some j \<longrightarrow>
      pg_getJob jobId (pg_acknowledge jobId t tbl) =
        Some (j\<lparr> status := COMPLETED, completedAt := Some t \<rparr>) \<and>
      pg_getJob jobId (pg_acknowledge jobId t' (pg_acknowledge jobId t tbl)) =
        Some (j\<lparr> status := COMPLETED, completedAt := Some t' \<rparr>)) \<and>
   (jobId \<notin> job_id ` set tbl \<longrightarrow> pg_acknowledge jobId t tbl = tbl) \<and>
   (inFlight jobId = Some entry \<longrightarrow>
      sqs_acknowledge queueUrl jobId inFlight =
        (Inr (), [DeleteMessageCommand queueUrl (receiptHandle entry)],
         inFlight(jobId := None)) \<and>
      sqs_acknowledge queueUrl jobId (inFlight(jobId := None)) =
        (Inl (Error (''Job '' @ jobId @ '' not found in in-flight jobs. Cannot acknowledge.'')),
         [], inFlight(jobId := None)))"
proof (intro conjI impI)
  assume j: "pg_getJob jobId tbl = Some j"
  show first: "pg_getJob jobId (pg_acknowledge jobId t tbl) =
        Some (j\<lparr> status := COMPLETED, completedAt := Some t \<rparr>)"
    using j by (rule pg_acknowledge_found)
  show "pg_getJob jobId (pg_acknowledge jobId t' (pg_acknowledge jobId t tbl)) =
        Some (j\<lparr> status := COMPLETED, completedAt := Some t' \<rparr>)"
    using pg_acknowledge_found[OF first, of t'] by simp
next
  assume "jobId \<notin> job_id ` set tbl"
  then show "pg_acknowledge jobId t tbl = tbl"
    unfolding pg_acknowledge_def by (rule filter_none_update)
next
  assume e: "inFlight jobId = Some entry"
  then show "sqs_acknowledge queueUrl jobId inFlight =
        (Inr (), [DeleteMessageCommand queueUrl (receiptHandle entry)],
         inFlight(jobId := None))"
    by (simp add: sqs_acknowledge_def)
  show "sqs_acknowledge queueUrl jobId (inFlight(jobId := None)) =
        (Inl (Error (''Job '' @ jobId @ '' not found in in-flight jobs. Cannot acknowledge.'')),
         [], inFlight(jobId := None))"
    by (simp add: sqs_acknowledge_def)
qed

theorem acknowledge_twice_witness:
  "map_option status (pg_getJob ''j1'' (pg_acknowledge ''j1'' 7 claimed_once)) = Some COMPLETED \<and>
   map_option completedAt (pg_getJob ''j1'' (pg_acknowledge ''j1'' 7 claimed_once)) =
     Some (Some 7) \<and>
   map_option status
     (pg_getJob ''j1'' (pg_acknowledge ''j1'' 8 (pg_acknowledge ''j1'' 7 claimed_once))) =
     Some COMPLETED \<and>
   ''z'' \<notin> job_id ` set claimed_once \<and>
   pg_acknowledge ''z'' 7 claimed_once = claimed_once \<and>
   fst (sqs_acknowledge ''url'' ''j1'' (lease_of 3)) = Inr () \<and>
   fst (sqs_acknowledge ''url'' ''j1'' ((lease_of 3)(''j1'' := None))) =
     Inl (Error ''Job j1 not found in in-flight jobs. Cannot acknowledge.'')"
proof -
  have z: "''z'' \<notin> job_id ` set claimed_once"
    by (simp add: example_defs pg_defs)
  note inst = acknowledge_twice
    [where jobId = "''j1''" and tbl = claimed_once and t = 7 and t' = 8
       and inFlight = "lease_of 3" and queueUrl = "''url''"]
  note pg = inst [THEN conjunct1, THEN mp, OF claimed_once_job]
  note sqs = inst [THEN conjunct2, THEN conjunct2, THEN mp, OF lease_of_entry]
  note none = acknowledge_twice
    [where jobId = "''z''" and tbl = claimed_once and t = 7,
     THEN conjunct2, THEN conjunct1, THEN mp, OF z]
  from pg sqs none z show ?thesis by simp
qed

theorem sqs_acknowledge_twice_raises:
  "fst (sqs_acknowledge ''url'' ''j1'' (lease_of 3)) = Inr () \<and>
   fst (sqs_acknowledge ''url'' ''j1''
          (snd (snd (sqs_acknowledge ''url'' ''j1'' (lease_of 3))))) =
     Inl (Error ''Job j1 not found in in-flight jobs. Cannot acknowledge.'')"
  by (simp add: sqs_acknowledge_def lease_of_entry)


section \<open>Errors for job ids the backend does not know\<close>

text \<open>
  C6. \<^verbatim>\<open>fail\<close> on a job id the backend no longer recognises raises an explicit error:
  on the relational backend when no row of the table has the id, on the managed
  backend when the id has no in-flight lease. Nothing is written and nothing is sent.
\<close>

theorem fail_unknown_id_raises:
  "(jobId \<notin> job_id ` set tbl \<longrightarrow>
      pg_fail jobId message retry now tbl = Inl (Error (''Job '' @ jobId @ '' not found''))) \<and>
   (inFlight jobId = None \<longrightarrow>
      sqs_fail queueUrl jobId message retry now inFlight =
        (Inl (Error (''Job '' @ jobId @ '' not found in in-flight jobs. Cannot mark as failed.'')),
         [], inFlight))"
proof -
  have "filter (\<lambda>r. job_id r = jobId) tbl = []" if "jobId \<notin> job_id ` set tbl"
    using that by (induction tbl) auto
  then show ?thesis
    by (simp add: pg_fail_def pg_getJob_def sqs_fail_def)
qed

theorem fail_unknown_id_raises_witness:
  "''z'' \<notin> job_id ` set priorities_table \<and>
   pg_fail ''z'' ''boom'' True 10 priorities_table = Inl (Error ''Job z not found'') \<and>
   sqs_fail ''url'' ''z'' ''boom'' True 10 (Map.empty :: unit inFlightJobs) =
     (Inl (Error ''Job z not found in in-flight jobs. Cannot mark as failed.''), [], Map.empty)"
proof -
  have h: "''z'' \<notin> job_id ` set priorities_table"
    by (simp add: priorities_table_def priority_options_def pg_defs)
  show ?thesis
    using h fail_unknown_id_raises
      [of "''z''" priorities_table "''boom''" True 10 "Map.empty :: unit inFlightJobs" "''url''"]
    by simp
qed

section \<open>Location filtering\<close>

lemma location_claim_row: "location (row_to_job (claim_row now r)) = location r"
  by (simp add: row_to_job_def Job.truncate_def claim_row_def)

lemma pg_dequeue_location:
  assumes "distinct (map job_id tbl)" and "location_given loc"
    and "fst (pg_dequeue queueName loc now tbl) = Some j"
  shows "Some (location j) = loc"
proof (cases "order_by_limit_1 (filter (eligible queueName loc now) tbl)")
  case None
  with assms(3) show ?thesis by (simp add: pg_dequeue_None)
next
  case (Some sel)
  note facts = pg_dequeue_Some[OF Some assms(1)]
  from assms(3) have "j = row_to_job (claim_row now sel)"
    unfolding facts(1) by simp
  moreover from facts(3) assms(2) have "Some (location sel) = loc"
    by (simp add: eligible_def)
  ultimately show ?thesis by (simp add: location_claim_row)
qed

lemma sqs_dequeue_location:
  assumes "location_given loc"
    and "fst (sqs_dequeue queueUrl loc now Messages inFlight) = Inr (Some j)"
  shows "Some (location j) = loc"
  using assms
  by (auto simp: sqs_dequeue_def Let_def split: option.splits list.splits if_splits)

lemma sqs_dequeue_mismatch:
  assumes "location_given loc" and "Body message = Some body"
    and "Some (m_location (metadata body)) \<noteq> loc"
  shows "sqs_dequeue queueUrl loc now (Some (message # others)) inFlight =
           (Inr None, [ReceiveMessageCommand queueUrl 1 20 300], inFlight)"
  using assms by (simp add: sqs_dequeue_def)

text \<open>
  C7, as amended. A \<^verbatim>\<open>dequeue\<close> that is given a non-empty location never returns a job
  of another location, on either backend (on the relational one, with job ids unique
  in the table). On the managed backend, when the received message's location differs
  from such a filter, \<^verbatim>\<open>dequeue\<close> returns null, sends nothing after the receive command
  (so the message is not deleted and stays with the service under the receive's
  visibility timeout of 300 seconds) and leaves the leases alone. An empty string as
  location is no filter at all.
\<close>

theorem dequeue_honours_location:
  "(distinct (map job_id tbl) \<and> location_given loc \<and>
      fst (pg_dequeue queueName loc now tbl) = Some j \<longrightarrow> Some (location j) = loc) \<and>
   (location_given loc \<and>
      fst (sqs_dequeue queueUrl loc now Messages inFlight) = Inr (Some j') \<longrightarrow>
      Some (location j') = loc) \<and>
   (location_given loc \<and> Body message = Some body \<and>
      Some (m_location (metadata body)) \<noteq> loc \<longrightarrow>
      sqs_dequeue queueUrl loc now (Some (message # others)) inFlight =
        (Inr None, [ReceiveMessageCommand queueUrl 1 20 300], inFlight))"
  using pg_dequeue_location[of tbl loc queueName now j]
    sqs_dequeue_location[of loc queueUrl now Messages inFlight j']
    sqs_dequeue_mismatch[of loc message body queueUrl now others inFlight]
  by blast

theorem dequeue_honours_location_witness:
  "distinct (map job_id priorities_table) \<and> location_given (Some ''eu-west'') \<and>
   fst (pg_dequeue ''default'' (Some ''eu-west'') 10 priorities_table) = None \<and>
   map_option location (fst (pg_dequeue ''default'' (Some ''us-east'') 10 priorities_table)) =
     Some ''us-east'' \<and>
   sqs_dequeue ''url'' (Some ''eu-west'') 5 (Some [sqs_message 3]) Map.empty =
     (Inr None, [ReceiveMessageCommand ''url'' 1 20 300], Map.empty) \<and>
   map_option location (projr (fst (sqs_dequeue ''url'' (Some ''us-east'') 5 (Some [sqs_message 3]) Map.empty))) =
     Some ''us-east''"
proof -
  have d: "distinct (map job_id priorities_table)"
    by (simp add: example_defs pg_defs)
  have g: "location_given (Some ''eu-west'')" "location_given (Some ''us-east'')" by simp_all
  have p: "\<exists>j. fst (pg_dequeue ''default'' (Some ''us-east'') 10 priorities_table) = Some j"
    by (simp add: example_defs pg_defs)
  have pn: "fst (pg_dequeue ''default'' (Some ''eu-west'') 10 priorities_table) = None"
    by (simp add: example_defs pg_defs)
  have s: "\<exists>j. fst (sqs_dequeue ''url'' (Some ''us-east'') 5 (Some [sqs_message 3]) Map.empty) =
      Inr (Some j)"
    by (simp add: example_defs sqs_defs Let_def)
  have b: "Body (sqs_message 3) = Some (MessageBody (hd (snd (sqs_enqueue ''url'' ''j1'' () (sqs_options 3) 0))))"
    by (simp add: example_defs)
  have m: "Some (m_location (metadata (MessageBody (hd (snd (sqs_enqueue ''url'' ''j1'' () (sqs_options 3) 0)))))) \<noteq> Some ''eu-west''"
    by (simp add: example_defs sqs_defs Let_def)
  from p obtain j where j: "fst (pg_dequeue ''default'' (Some ''us-east'') 10 priorities_table) = Some j" ..
  from s obtain j' where j': "fst (sqs_dequeue ''url'' (Some ''us-east'') 5 (Some [sqs_message 3]) Map.empty) = Inr (Some j')" ..
  note one = dequeue_honours_location
    [where tbl = priorities_table and loc = "Some ''us-east''" and queueName = "''default''"
       and now = 10 and j = j, THEN conjunct1, rule_format, OF conjI, OF d conjI, OF g(2) j]
  note two = dequeue_honours_location
    [where loc = "Some ''us-east''" and queueUrl = "''url''" and now = 5
       and Messages = "Some [sqs_message 3]" and inFlight = Map.empty and j' = j',
     THEN conjunct2, THEN conjunct1, rule_format, OF conjI, OF g(2) j']
  note three = dequeue_honours_location
    [where loc = "Some ''eu-west''" and queueUrl = "''url''" and now = 5
       and message = "sqs_message 3" and others = "[]" and inFlight = Map.empty,
     THEN conjunct2, THEN conjunct2, rule_format, OF conjI, OF g(1) conjI, OF b m]
  from one two three j j' d pn show ?thesis by simp
qed

text \<open>
  A \<^verbatim>\<open>dequeue\<close> called with the empty string as location returns a job enqueued for
  \<^verbatim>\<open>us-east\<close>, on both backends.
\<close>

theorem empty_location_is_no_filter:
  "'''' \<noteq> ''us-east'' \<and>
   map_option location (fst (pg_dequeue ''default'' (Some '''') 10 priorities_table)) =
     Some ''us-east'' \<and>
   fst (sqs_dequeue ''url'' (Some '''') 5 (Some [sqs_message 3]) Map.empty) =
     Inr (Some \<lparr> job_id = ''j1'', data = (), location = ''us-east'', status = RUNNING,
                  attempts = 1, maxAttempts = 3, priority = 0, scheduledFor = 0,
                  createdAt = 0, startedAt = Some 5, completedAt = None, error = None \<rparr>)"
  by (simp add: example_defs pg_defs sqs_defs Let_def)


section \<open>Delayed jobs on the managed backend\<close>

text \<open>
  C8. A job enqueued at time 0 to run one hour later is sent with the delay clamped to
  900 seconds. When the service delivers the message at the end of that delay,
  \<^verbatim>\<open>dequeue\<close> returns the job as running, 45 minutes before its \<^verbatim>\<open>scheduledFor\<close>:
  \<^verbatim>\<open>dequeue\<close> never compares \<^verbatim>\<open>scheduledFor\<close> with the clock and never sends the message
  back with a further delay.
\<close>

theorem sqs_job_claimed_before_runAt:
  "map DelaySeconds (snd (sqs_enqueue ''url'' ''j1'' () in_one_hour 0)) = [900] \<and>
   fst (sqs_dequeue ''url'' (Some ''us-east'') 900000
          (Some [delivered (hd (snd (sqs_enqueue ''url'' ''j1'' () in_one_hour 0))) ''rh-1''])
          Map.empty) =
     Inr (Some \<lparr> job_id = ''j1'', data = (), location = ''us-east'', status = RUNNING,
                  attempts = 1, maxAttempts = 3, priority = 0, scheduledFor = 3600000,
                  createdAt = 0, startedAt = Some 900000, completedAt = None,
                  error = None \<rparr>)"
  by (simp add: run_defs example_defs sqs_defs Let_def)


section \<open>The worker's backoff on an empty queue\<close>

text \<open>
  C9. A new worker has \<^verbatim>\<open>emptyDelay\<close> 1000 and \<^verbatim>\<open>maxEmptyDelay\<close> 30000 unless configured
  otherwise, and its current delay is \<^verbatim>\<open>emptyDelay\<close>. In the poll loop the sleeps after
  successive empty polls are \<open>spec_empty_delay\<close>: the first is \<^verbatim>\<open>emptyDelay\<close>, each next one
  is the double of the one before, capped at \<^verbatim>\<open>maxEmptyDelay\<close>; this holds from the start
  of the loop and again after any poll that returns a job, whatever came before it and
  however the job's processing ends. When \<open>0 \<le> maxEmptyDelay\<close> and
  \<open>emptyDelay \<le> maxEmptyDelay\<close> the \<open>k\<close>-th of these sleeps is
  \<open>min (emptyDelay * 2 ^ k) maxEmptyDelay\<close>.
\<close>

theorem empty_poll_backoff:
  "emptyDelay (WorkerService_new loc config) =
     (case cfg_emptyDelay config of None \<Rightarrow> 1000 | Some v \<Rightarrow> v) \<and>
   maxEmptyDelay (WorkerService_new loc config) =
     (case cfg_maxEmptyDelay config of None \<Rightarrow> 30000 | Some v \<Rightarrow> v) \<and>
   currentEmptyDelay (WorkerService_new loc config) = emptyDelay (WorkerService_new loc config) \<and>
   (start (WorkerService_new loc config) = Inr w0 \<longrightarrow>
      empty_sleeps (fst (runWorkerLoop (replicate n PollNull) w0)) =
        map (spec_empty_delay (emptyDelay w0) (maxEmptyDelay w0)) [0..<n]) \<and>
   (isRunning w \<longrightarrow>
      empty_sleeps
        (fst (runWorkerLoop (outs @ PollJob jobId d env # replicate n PollNull) w)) =
        empty_sleeps (fst (runWorkerLoop outs w)) @
        map (spec_empty_delay (emptyDelay w) (maxEmptyDelay w)) [0..<n]) \<and>
   (0 \<le> m \<and> e \<le> m \<longrightarrow> spec_empty_delay e m k = min (e * 2 ^ k) m)"
proof (intro conjI impI)
  show "emptyDelay (WorkerService_new loc config) =
     (case cfg_emptyDelay config of None \<Rightarrow> 1000 | Some v \<Rightarrow> v)"
    by (simp add: WorkerService_new_def Let_def)
  show "maxEmptyDelay (WorkerService_new loc config) =
     (case cfg_maxEmptyDelay config of None \<Rightarrow> 30000 | Some v \<Rightarrow> v)"
    by (simp add: WorkerService_new_def Let_def)
  show "currentEmptyDelay (WorkerService_new loc config) = emptyDelay (WorkerService_new loc config)"
    by (simp add: WorkerService_new_def Let_def)
next
  assume "start (WorkerService_new loc config) = Inr w0"
  then have w0: "w0 = (WorkerService_new loc config)\<lparr> isRunning := True \<rparr>"
    by (simp add: start_def split: if_splits)
  have run: "isRunning w0" and cur: "currentEmptyDelay w0 = emptyDelay w0"
    unfolding w0 by (simp_all add: WorkerService_new_def Let_def)
  show "empty_sleeps (fst (runWorkerLoop (replicate n PollNull) w0)) =
        map (spec_empty_delay (emptyDelay w0) (maxEmptyDelay w0)) [0..<n]"
    unfolding empty_polls_sleeps[OF run] cur spec_empty_delay_funpow ..
next
  assume "isRunning w"
  then show "empty_sleeps
        (fst (runWorkerLoop (outs @ PollJob jobId d env # replicate n PollNull) w)) =
        empty_sleeps (fst (runWorkerLoop outs w)) @
        map (spec_empty_delay (emptyDelay w) (maxEmptyDelay w)) [0..<n]"
    by (rule empty_polls_after_job)
next
  assume "0 \<le> m \<and> e \<le> m"
  then show "spec_empty_delay e m k = min (e * 2 ^ k) m"
    by (simp add: spec_empty_delay_closed_form)
qed

theorem empty_poll_backoff_witness:
  "start (WorkerService_new ''us-east'' default_config) = Inr started_worker \<and>
   isRunning started_worker \<and>
   empty_sleeps (fst (runWorkerLoop (replicate 7 PollNull) started_worker)) =
     [1000, 2000, 4000, 8000, 16000, 30000, 30000] \<and>
   empty_sleeps
     (fst (runWorkerLoop
        (replicate 3 PollNull @ PollJob ''j1'' example_job all_succeed # replicate 2 PollNull)
        started_worker)) =
     [1000, 2000, 4000, 1000, 2000] \<and>
   (0::int) \<le> 30000 \<and> (1000::int) \<le> 30000 \<and>
   spec_empty_delay 1000 30000 5 = min (1000 * 2 ^ 5) 30000"
proof -
  note a = empty_poll_backoff
    [where loc = "''us-east''" and config = default_config and ?w0.0 = started_worker and n = 7,
     THEN conjunct2, THEN conjunct2, THEN conjunct2, THEN conjunct1, THEN mp,
     OF started_worker_eq]
  note pre = empty_poll_backoff
    [where loc = "''us-east''" and config = default_config and ?w0.0 = started_worker and n = 3,
     THEN conjunct2, THEN conjunct2, THEN conjunct2, THEN conjunct1, THEN mp,
     OF started_worker_eq]
  note b = empty_poll_backoff
    [where w = started_worker and outs = "replicate 3 PollNull" and n = 2
       and jobId = "''j1''" and d = example_job and env = all_succeed,
     THEN conjunct2, THEN conjunct2, THEN conjunct2, THEN conjunct2, THEN conjunct1, THEN mp,
     OF started_worker_fields(1)]
  have h: "(0::int) \<le> 30000 \<and> (1000::int) \<le> 30000" by simp
  note c = empty_poll_backoff
    [where m = 30000 and e = 1000 and k = 5,
     THEN conjunct2, THEN conjunct2, THEN conjunct2, THEN conjunct2, THEN conjunct2, THEN mp,
     OF h]
  have seven: "[0..<7] = [0, 1, 2, 3, 4, 5, 6]" by (simp add: upt_rec)
  have three: "[0..<3] = [0, 1, 2]" by (simp add: upt_rec)
  have two: "[0..<2] = [0, 1]" by (simp add: upt_rec)
  have vals: "map (spec_empty_delay 1000 30000) [0, 1, 2, 3, 4, 5, 6] =
      [1000, 2000, 4000, 8000, 16000, 30000, 30000]"
    by (simp add: numeral_eq_Suc)
  show ?thesis
    using a b c h started_worker_eq pre vals
    unfolding started_worker_fields seven three two
    by (simp add: started_worker_fields)
qed



section \<open>The worker acknowledges only after the result is reported\<close>





end
